theory Spec2Isabelle
  imports Main "HOL-Library.AList" "HOL-Library.Multiset" "HOL-Library.Word"
begin

section \<open>The plugin of protoc-gen-doc (plugin.go)\<close>

text \<open>
  A shallow embedding of \<^verbatim>\<open>plugin.go\<close>: \<^verbatim>\<open>ParseOptions\<close>, \<^verbatim>\<open>excludeUnwantedProtos\<close>,
  \<^verbatim>\<open>groupProtosByDirectory\<close> and \<^verbatim>\<open>Generate\<close>. Go strings are byte strings (\<open>string\<close>),
  a returned \<^verbatim>\<open>error\<close> is the \<open>Inl\<close> of a sum, and the functions that plugin.go calls
  but does not define (the regular-expression compiler, the renderer, the file system)
  are the fields of a record of parameters.
\<close>

subsection \<open>Functions of the Go standard library\<close>

abbreviation backslash :: char where
  "backslash \<equiv> CHR 0x5C"

text \<open>\<^verbatim>\<open>strings.Contains(s, sep)\<close> and \<^verbatim>\<open>strings.HasPrefix(s, prefix)\<close>; plugin.go passes
  one-character separators only (\<^verbatim>\<open>":"\<close> and \<^verbatim>\<open>","\<close>).\<close>

definition strings_Contains :: "string \<Rightarrow> char \<Rightarrow> bool" where
  "strings_Contains s sep = (sep \<in> set s)"

definition strings_HasPrefix :: "string \<Rightarrow> string \<Rightarrow> bool" where
  "strings_HasPrefix s prefix = (take (length prefix) s = prefix)"

text \<open>\<^verbatim>\<open>strings.Split(s, sep)\<close> for a one-character separator: the pieces between the
  separators, one more piece than there are separators. \<open>splitFrom cur s sep\<close> is the scan
  with the piece \<open>cur\<close> read so far.\<close>

fun splitFrom :: "string \<Rightarrow> string \<Rightarrow> char \<Rightarrow> string list" where
  "splitFrom cur [] sep = [cur]"
| "splitFrom cur (x # xs) sep =
     (if x = sep then cur # splitFrom [] xs sep else splitFrom (cur @ [x]) xs sep)"

definition strings_Split :: "string \<Rightarrow> char \<Rightarrow> string list" where
  "strings_Split s sep = splitFrom [] s sep"

text \<open>\<^verbatim>\<open>path.Base\<close>: the empty path gives \<^verbatim>\<open>"."\<close>; trailing slashes are stripped, then
  everything up to the last slash; a path of slashes only gives \<^verbatim>\<open>"/"\<close>.\<close>

definition path_Base :: "string \<Rightarrow> string" where
  "path_Base path =
     (if path = [] then ''.''
      else
        (let stripped = rev (dropWhile (\<lambda>c. c = CHR ''/'') (rev path));
             last_elem = rev (takeWhile (\<lambda>c. c \<noteq> CHR ''/'') (rev stripped))
         in if last_elem = [] then ''/'' else last_elem))"

text \<open>\<^verbatim>\<open>filepath.Split\<close> where the path separator is the slash and there are no volume
  names: the directory is the path up to and including its last slash, the file is the
  rest.\<close>

definition filepath_Split :: "string \<Rightarrow> string \<times> string" where
  "filepath_Split path =
     (rev (dropWhile (\<lambda>c. c \<noteq> CHR ''/'') (rev path)),
      rev (takeWhile (\<lambda>c. c \<noteq> CHR ''/'') (rev path)))"

subsection \<open>Data\<close>

text \<open>A descriptor (\<^verbatim>\<open>protokit.FileDescriptor\<close>) is opaque but for its name; a request is
  read through \<^verbatim>\<open>GetParameter\<close> and through \<^verbatim>\<open>protokit.ParseCodeGenRequest\<close>, which
  gives its descriptors.\<close>

record FileDescriptor =
  GetName :: string

record 'd CodeGeneratorRequest =
  GetParameter :: string
  ParseCodeGenRequest :: "'d FileDescriptor_scheme list"

record ('rt, 'rx) PluginOptions =
  Type :: 'rt
  TemplateFile :: string
  OutputFile :: string
  ExcludePatterns :: "'rx list"
  SourceRelative :: bool

record CodeGeneratorResponse_File =
  Name :: string
  Content :: string

record CodeGeneratorResponse =
  File :: "CodeGeneratorResponse_File list"
  resp_SupportedFeatures :: "64 word option"

text \<open>An error is either the one \<^verbatim>\<open>fmt.Errorf\<close> builds (its message), or an error of a
  called function, returned as it is.\<close>

datatype 'e error = Errorf string | External 'e

text \<open>What plugin.go uses and does not define: the render types and \<^verbatim>\<open>NewRenderType\<close>,
  \<^verbatim>\<open>NewTemplate\<close> and \<^verbatim>\<open>RenderTemplate\<close> (other files of the package), \<^verbatim>\<open>regexp.Compile\<close>
  and \<^verbatim>\<open>(*Regexp).MatchString\<close>, \<^verbatim>\<open>ioutil.ReadFile\<close>, \<^verbatim>\<open>filepath.Join\<close> and the
  feature constant of the plugin protocol.\<close>

record ('rt, 'rx, 'e, 'tm, 'd) externals =
  RenderTypeHTML :: 'rt
  NewRenderType :: "string \<Rightarrow> 'e + 'rt"
  regexp_Compile :: "string \<Rightarrow> 'e + 'rx"
  MatchString :: "'rx \<Rightarrow> string \<Rightarrow> bool"
  ReadFile :: "string \<Rightarrow> 'e + string"
  NewTemplate :: "'d FileDescriptor_scheme list \<Rightarrow> 'tm"
  RenderTemplate :: "'rt \<Rightarrow> 'tm \<Rightarrow> string \<Rightarrow> 'e + string"
  filepath_Join :: "string \<Rightarrow> string \<Rightarrow> string"
  FEATURE_PROTO3_OPTIONAL :: int

definition SupportedFeatures :: "('rt, 'rx, 'e, 'tm, 'd) externals \<Rightarrow> 64 word" where
  "SupportedFeatures ext = word_of_int (FEATURE_PROTO3_OPTIONAL ext)"

subsection \<open>ParseOptions\<close>

text \<open>The character class \<^verbatim>\<open>[a-zA-z]\<close> as the source writes it: the two ranges
  \<^verbatim>\<open>a-z\<close> and \<^verbatim>\<open>A-z\<close>, by character code.\<close>

definition class_a_z_A_z :: "char \<Rightarrow> bool" where
  "class_a_z_A_z c =
     ((of_char (CHR ''a'') \<le> (of_char c :: nat) \<and> (of_char c :: nat) \<le> of_char (CHR ''z'')) \<or>
      (of_char (CHR ''A'') \<le> (of_char c :: nat) \<and> (of_char c :: nat) \<le> of_char (CHR ''z'')))"

text \<open>\<^verbatim>\<open>regexp.MatchString("(?:^|,)[a-zA-z]$", first)\<close>: the text ends with a character
  of the class that is its first character or follows a comma.\<close>

definition matchDriveLetter :: "string \<Rightarrow> bool" where
  "matchDriveLetter first =
     (case rev first of
        [] \<Rightarrow> False
      | [c] \<Rightarrow> class_a_z_A_z c
      | c # p # _ \<Rightarrow> class_a_z_A_z c \<and> p = CHR '','')"

definition winPathHeuristic :: "string \<Rightarrow> string \<Rightarrow> bool" where
  "winPathHeuristic first second =
     (if strings_HasPrefix second [backslash] then matchDriveLetter first else False)"

text \<open>A letter, as the comment of lines 133 to 135 asks of the drive letter: \<^verbatim>\<open>a\<close> to
  \<^verbatim>\<open>z\<close> or \<^verbatim>\<open>A\<close> to \<^verbatim>\<open>Z\<close>. The source does not use it; the properties of
  \<open>winPathHeuristic\<close> are stated with it.\<close>

definition isLetter :: "char \<Rightarrow> bool" where
  "isLetter c =
     ((of_char (CHR ''a'') \<le> (of_char c :: nat) \<and> (of_char c :: nat) \<le> of_char (CHR ''z'')) \<or>
      (of_char (CHR ''A'') \<le> (of_char c :: nat) \<and> (of_char c :: nat) \<le> of_char (CHR ''Z'')))"

text \<open>Lines 141 to 157, on \<open>parts = strings.Split(params, ":")\<close>: the new \<open>params\<close> and
  \<open>excludePart\<close>. The guard of line 121 gives \<open>parts\<close> two elements at least.\<close>

definition splitExclude :: "string list \<Rightarrow> string \<times> string" where
  "splitExclude parts =
     (if winPathHeuristic (parts ! 0) (parts ! 1) then
        (let params = parts ! 0 @ '':'' @ parts ! 1 in
         if length parts > 2 then
           (if winPathHeuristic params (parts ! 2) then
              (params @ '':'' @ parts ! 2, if length parts > 3 then parts ! 3 else [])
            else (params, parts ! 2))
         else (params, []))
      else (parts ! 0, parts ! 1))"

text \<open>Lines 160 to 166: the patterns are compiled in order and appended; the first
  failure is returned.\<close>

fun compilePatterns ::
  "('rt, 'rx, 'e, 'tm, 'd) externals \<Rightarrow> string list \<Rightarrow> ('rt, 'rx) PluginOptions
    \<Rightarrow> 'e error + ('rt, 'rx) PluginOptions" where
  "compilePatterns ext [] options = Inr options"
| "compilePatterns ext (pattern # rest) options =
     (case regexp_Compile ext pattern of
        Inl err \<Rightarrow> Inl (External err)
      | Inr r \<Rightarrow>
          compilePatterns ext rest
            (options\<lparr>ExcludePatterns := ExcludePatterns options @ [r]\<rparr>))"

text \<open>Lines 121 to 168: the main spec and the options with the exclusion patterns.\<close>

definition parseExcludePart ::
  "('rt, 'rx, 'e, 'tm, 'd) externals \<Rightarrow> string \<Rightarrow> ('rt, 'rx) PluginOptions
    \<Rightarrow> 'e error + (string \<times> ('rt, 'rx) PluginOptions)" where
  "parseExcludePart ext params options =
     (if strings_Contains params (CHR '':'') then
        (case splitExclude (strings_Split params (CHR '':'')) of
           (params', excludePart) \<Rightarrow>
             if length excludePart > 0 then
               (case compilePatterns ext (strings_Split excludePart (CHR '','')) options of
                  Inl err \<Rightarrow> Inl err
                | Inr options' \<Rightarrow> Inr (params', options'))
             else Inr (params', options))
      else Inr (params, options))"

text \<open>Lines 169 to 202, on the main spec.\<close>

definition parseMainSpec ::
  "('rt, 'rx, 'e, 'tm, 'd) externals \<Rightarrow> string \<Rightarrow> ('rt, 'rx) PluginOptions
    \<Rightarrow> 'e error + ('rt, 'rx) PluginOptions" where
  "parseMainSpec ext params options =
     (if params = [] then Inr options
      else if \<not> strings_Contains params (CHR '','') then
        Inl (Errorf (''Invalid parameter: '' @ params))
      else
        (let parts = strings_Split params (CHR '','') in
         if length parts < 2 \<or> length parts > 3 then
           Inl (Errorf (''Invalid parameter: '' @ params))
         else
           (let options1 = options\<lparr>TemplateFile := parts ! 0, OutputFile := path_Base (parts ! 1)\<rparr>;
                switch =
                  (if length parts > 2 then
                     (if parts ! 2 = ''source_relative'' then
                        Inr (options1\<lparr>SourceRelative := True\<rparr>)
                      else if parts ! 2 = ''default'' then
                        Inr (options1\<lparr>SourceRelative := False\<rparr>)
                      else Inl (Errorf (''Invalid parameter: '' @ params)))
                   else Inr options1)
            in case switch of
                 Inl err \<Rightarrow> Inl err
               | Inr options2 \<Rightarrow>
                   (let options3 = options2\<lparr>SourceRelative :=
                          (length parts > 2 \<and> parts ! 2 = ''source_relative'')\<rparr>
                    in case NewRenderType ext (TemplateFile options3) of
                         Inr renderType \<Rightarrow> Inr (options3\<lparr>Type := renderType, TemplateFile := []\<rparr>)
                       | Inl _ \<Rightarrow> Inr options3))))"

definition defaultOptions :: "('rt, 'rx, 'e, 'tm, 'd) externals \<Rightarrow> ('rt, 'rx) PluginOptions" where
  "defaultOptions ext =
     \<lparr>Type = RenderTypeHTML ext, TemplateFile = [], OutputFile = ''index.html'',
      ExcludePatterns = [], SourceRelative = False\<rparr>"

definition ParseOptions ::
  "('rt, 'rx, 'e, 'tm, 'd) externals \<Rightarrow> ('d, 'q) CodeGeneratorRequest_scheme
    \<Rightarrow> 'e error + ('rt, 'rx) PluginOptions" where
  "ParseOptions ext req =
     (case parseExcludePart ext (GetParameter req) (defaultOptions ext) of
        Inl err \<Rightarrow> Inl err
      | Inr (params, options) \<Rightarrow> parseMainSpec ext params options)"

subsection \<open>excludeUnwantedProtos\<close>

text \<open>The inner loop: the index of the pattern at which \<^verbatim>\<open>continue OUTER\<close> is taken,
  or \<open>None\<close> when the loop runs to its end.\<close>

fun matchLoop :: "('rt, 'rx, 'e, 'tm, 'd) externals \<Rightarrow> 'rx list \<Rightarrow> string \<Rightarrow> nat option" where
  "matchLoop ext [] name = None"
| "matchLoop ext (p # ps) name =
     (if MatchString ext p name then Some 0 else map_option Suc (matchLoop ext ps name))"

fun excludeLoop ::
  "('rt, 'rx, 'e, 'tm, 'd) externals \<Rightarrow> 'd FileDescriptor_scheme list \<Rightarrow> 'rx list
    \<Rightarrow> 'd FileDescriptor_scheme list \<Rightarrow> 'd FileDescriptor_scheme list" where
  "excludeLoop ext [] excludePatterns descs = descs"
| "excludeLoop ext (d # fds) excludePatterns descs =
     (case matchLoop ext excludePatterns (GetName d) of
        Some _ \<Rightarrow> excludeLoop ext fds excludePatterns descs
      | None \<Rightarrow> excludeLoop ext fds excludePatterns (descs @ [d]))"

definition excludeUnwantedProtos ::
  "('rt, 'rx, 'e, 'tm, 'd) externals \<Rightarrow> 'd FileDescriptor_scheme list \<Rightarrow> 'rx list
    \<Rightarrow> 'd FileDescriptor_scheme list" where
  "excludeUnwantedProtos ext fds excludePatterns = excludeLoop ext fds excludePatterns []"

subsection \<open>groupProtosByDirectory\<close>

text \<open>The Go map \<^verbatim>\<open>map[string][]*protokit.FileDescriptor\<close> is the list of its entries,
  with distinct keys. The order of the list has no meaning in Go: \<^verbatim>\<open>range\<close> visits the
  entries in an order of the runtime's choice (see \<open>Generate\<close>). Reading a key that is
  absent gives the nil slice.\<close>

type_synonym 'd fdsGroup = "(string \<times> 'd FileDescriptor_scheme list) list"

definition mapIndex :: "'d fdsGroup \<Rightarrow> string \<Rightarrow> 'd FileDescriptor_scheme list" where
  "mapIndex m k = (case map_of m k of None \<Rightarrow> [] | Some v \<Rightarrow> v)"

definition groupKey :: "bool \<Rightarrow> 'd FileDescriptor_scheme \<Rightarrow> string" where
  "groupKey sourceRelative fd =
     (let dir = (if sourceRelative then fst (filepath_Split (GetName fd)) else [])
      in if dir = [] then ''./'' else dir)"

fun groupLoop :: "'d FileDescriptor_scheme list \<Rightarrow> bool \<Rightarrow> 'd fdsGroup \<Rightarrow> 'd fdsGroup" where
  "groupLoop [] sourceRelative fdsGroup = fdsGroup"
| "groupLoop (fd # fds) sourceRelative fdsGroup =
     (let dir = groupKey sourceRelative fd
      in groupLoop fds sourceRelative (AList.update dir (mapIndex fdsGroup dir @ [fd]) fdsGroup))"

definition groupProtosByDirectory :: "'d FileDescriptor_scheme list \<Rightarrow> bool \<Rightarrow> 'd fdsGroup" where
  "groupProtosByDirectory fds sourceRelative = groupLoop fds sourceRelative []"

subsection \<open>Generate\<close>

text \<open>The loop of lines 55 to 67 over the entries in the order they are visited, with
  \<^verbatim>\<open>resp.File\<close> as accumulator.\<close>

fun renderLoop ::
  "('rt, 'rx, 'e, 'tm, 'd) externals \<Rightarrow> ('rt, 'rx) PluginOptions \<Rightarrow> string \<Rightarrow> 'd fdsGroup
    \<Rightarrow> CodeGeneratorResponse_File list \<Rightarrow> 'e error + CodeGeneratorResponse_File list" where
  "renderLoop ext options customTemplate [] files = Inr files"
| "renderLoop ext options customTemplate ((dir, fds) # rest) files =
     (case RenderTemplate ext (Type options) (NewTemplate ext fds) customTemplate of
        Inl err \<Rightarrow> Inl (External err)
      | Inr output \<Rightarrow>
          renderLoop ext options customTemplate rest
            (files @ [\<lparr>Name = filepath_Join ext dir (OutputFile options), Content = output\<rparr>]))"

text \<open>\<open>rangeOrder\<close> is the order in which this run's \<^verbatim>\<open>range\<close> statement visits the
  entries of the map: Go leaves it unspecified, each entry is visited once.\<close>

definition Generate ::
  "('rt, 'rx, 'e, 'tm, 'd) externals \<Rightarrow> ('d fdsGroup \<Rightarrow> 'd fdsGroup)
    \<Rightarrow> ('d, 'q) CodeGeneratorRequest_scheme \<Rightarrow> 'e error + CodeGeneratorResponse" where
  "Generate ext rangeOrder r =
     (case ParseOptions ext r of
        Inl err \<Rightarrow> Inl err
      | Inr options \<Rightarrow>
          (let result = excludeUnwantedProtos ext (ParseCodeGenRequest r) (ExcludePatterns options)
           in case (if TemplateFile options \<noteq> [] then ReadFile ext (TemplateFile options)
                    else Inr []) of
                Inl err \<Rightarrow> Inl (External err)
              | Inr customTemplate \<Rightarrow>
                  (case renderLoop ext options customTemplate
                          (rangeOrder (groupProtosByDirectory result (SourceRelative options))) [] of
                     Inl err \<Rightarrow> Inl err
                   | Inr files \<Rightarrow>
                       Inr \<lparr>File = files,
                            resp_SupportedFeatures = Some (SupportedFeatures ext)\<rparr>)))"

definition validRangeOrder :: "('d fdsGroup \<Rightarrow> 'd fdsGroup) \<Rightarrow> bool" where
  "validRangeOrder rangeOrder = (\<forall>m. mset (rangeOrder m) = mset m)"

subsection \<open>A small instance of the collaborators\<close>

text \<open>Concrete collaborators on which the definitions can be evaluated: render types
  are their names, a compiled pattern is its text and matches the names that start with
  it, one pattern does not compile, a template is the list of the descriptors' names and
  renders to their concatenation, one template text does not render, and joining a
  directory key that ends in a slash with a file name appends the name (the key
  \<^verbatim>\<open>"./"\<close> is dropped, as \<^verbatim>\<open>filepath.Join\<close> cleans it away).\<close>

definition sample_externals :: "(string, string, string, string list, unit) externals" where
  "sample_externals =
     \<lparr>RenderTypeHTML = ''html'',
      NewRenderType = (\<lambda>s. if s \<in> set [''docbook'', ''html'', ''json'', ''markdown''] then Inr s
                           else Inl ''Invalid render type''),
      regexp_Compile = (\<lambda>p. if p = ''('' then Inl ''missing closing )'' else Inr p),
      MatchString = (\<lambda>rx name. strings_HasPrefix name rx),
      ReadFile = (\<lambda>path. if path = ''bad.tmpl'' then Inr ''{{''
                         else if path = ''custom.tmpl'' then Inr ''T''
                         else Inl ''no such file''),
      NewTemplate = map GetName,
      RenderTemplate = (\<lambda>rt names custom. if custom = ''{{'' then Inl ''unexpected {{''
                         else Inr (concat names)),
      filepath_Join = (\<lambda>dir file. if dir = ''./'' then file else dir @ file),
      FEATURE_PROTO3_OPTIONAL = 1\<rparr>"

section \<open>Properties\<close>

subsection \<open>Splitting\<close>

lemma splitFrom_nosep: "sep \<notin> set s \<Longrightarrow> splitFrom cur s sep = [cur @ s]"
  by (induction s arbitrary: cur) auto

lemma splitFrom_first:
  "sep \<notin> set a \<Longrightarrow> splitFrom cur (a @ sep # b) sep = (cur @ a) # splitFrom [] b sep"
  by (induction a arbitrary: cur) auto

lemma splitFrom_snoc: "splitFrom cur (s @ [sep]) sep = splitFrom cur s sep @ [[]]"
  by (induction s arbitrary: cur) auto

lemma splitFrom_length: "length (splitFrom cur s sep) = Suc (count_list s sep)"
  by (induction s arbitrary: cur) auto

lemma strings_Split_length: "length (strings_Split s sep) = Suc (count_list s sep)"
  by (simp add: strings_Split_def splitFrom_length)

lemma count_list_pos: "x \<in> set xs \<Longrightarrow> 0 < count_list xs x"
  by (induction xs) auto

lemma winPathHeuristic_Nil [simp]: "\<not> winPathHeuristic first []"
  by (simp add: winPathHeuristic_def strings_HasPrefix_def)

subsection \<open>The empty parameter\<close>

text \<open>C5. For the empty parameter string \<open>ParseOptions\<close> returns no error and the default
  configuration: the built-in HTML renderer, no template file, the output file name
  \<^verbatim>\<open>index.html\<close>, no exclusion pattern, and \<open>SourceRelative\<close> false.\<close>

theorem ParseOptions_empty:
  "GetParameter req = [] \<Longrightarrow>
     ParseOptions ext req =
       Inr \<lparr>Type = RenderTypeHTML ext, TemplateFile = [], OutputFile = ''index.html'',
            ExcludePatterns = [], SourceRelative = False\<rparr>"
  by (simp add: ParseOptions_def parseExcludePart_def strings_Contains_def parseMainSpec_def
      defaultOptions_def)

theorem ParseOptions_empty_witness:
  "GetParameter \<lparr>GetParameter = [], ParseCodeGenRequest = []\<rparr> = [] \<and>
   ParseOptions sample_externals \<lparr>GetParameter = [], ParseCodeGenRequest = []\<rparr> =
     Inr \<lparr>Type = ''html'', TemplateFile = [], OutputFile = ''index.html'',
          ExcludePatterns = [], SourceRelative = False\<rparr>"
proof -
  have h: "GetParameter \<lparr>GetParameter = [], ParseCodeGenRequest = []\<rparr> = []"
    by simp
  have "RenderTypeHTML sample_externals = ''html''"
    by (simp add: sample_externals_def)
  with ParseOptions_empty [OF h, of sample_externals] h show ?thesis
    by simp
qed

subsection \<open>A trailing colon\<close>

lemma splitExclude_snoc:
  assumes "2 \<le> length parts"
  shows "splitExclude (parts @ [[]]) = splitExclude parts"
proof -
  from assms obtain p0 p1 rest where parts: "parts = p0 # p1 # rest"
    by (cases parts; cases "tl parts") auto
  show ?thesis
  proof (cases rest)
    case Nil
    with parts show ?thesis by (simp add: splitExclude_def)
  next
    case (Cons p2 rest')
    with parts show ?thesis by (cases rest') (simp_all add: splitExclude_def Let_def)
  qed
qed

lemma parseExcludePart_snoc:
  "parseExcludePart ext (s @ '':'') options = parseExcludePart ext s options"
proof (cases "CHR '':'' \<in> set s")
  case True
  then have "2 \<le> length (strings_Split s (CHR '':''))"
    using count_list_pos [OF True] by (simp add: strings_Split_length)
  then have "splitExclude (strings_Split (s @ '':'') (CHR '':'')) =
      splitExclude (strings_Split s (CHR '':''))"
    by (simp add: strings_Split_def splitFrom_snoc splitExclude_snoc)
  with True show ?thesis by (simp add: parseExcludePart_def strings_Contains_def)
next
  case False
  then show ?thesis
    by (simp add: parseExcludePart_def strings_Contains_def strings_Split_def splitFrom_snoc
        splitFrom_nosep splitExclude_def)
qed

text \<open>C10. A colon at the end of the parameter changes nothing: \<open>ParseOptions\<close> returns
  for the parameter followed by a colon what it returns for the parameter alone (the
  empty exclusion part compiles no pattern and raises no error), whatever the parameter
  is, so for every valid main spec too; the parameter \<^verbatim>\<open>":"\<close> gives the default
  configuration, with no exclusion pattern.\<close>

theorem ParseOptions_trailing_colon:
  "ParseOptions ext (req\<lparr>GetParameter := GetParameter req @ '':''\<rparr>) = ParseOptions ext req \<and>
   ParseOptions ext (req\<lparr>GetParameter := '':''\<rparr>) =
     Inr \<lparr>Type = RenderTypeHTML ext, TemplateFile = [], OutputFile = ''index.html'',
          ExcludePatterns = [], SourceRelative = False\<rparr>"
proof
  show "ParseOptions ext (req\<lparr>GetParameter := GetParameter req @ '':''\<rparr>) = ParseOptions ext req"
    by (simp add: ParseOptions_def parseExcludePart_snoc)
  have "parseExcludePart ext '':'' (defaultOptions ext) =
      parseExcludePart ext [] (defaultOptions ext)"
    using parseExcludePart_snoc [of ext "[]"] by simp
  then show "ParseOptions ext (req\<lparr>GetParameter := '':''\<rparr>) =
      Inr \<lparr>Type = RenderTypeHTML ext, TemplateFile = [], OutputFile = ''index.html'',
           ExcludePatterns = [], SourceRelative = False\<rparr>"
    by (simp add: ParseOptions_def parseExcludePart_def strings_Contains_def parseMainSpec_def
        defaultOptions_def)
qed

theorem ParseOptions_trailing_colon_witness:
  "ParseOptions sample_externals
     \<lparr>GetParameter = ''markdown,docs/out.md,source_relative:'', ParseCodeGenRequest = []\<rparr> =
   ParseOptions sample_externals
     \<lparr>GetParameter = ''markdown,docs/out.md,source_relative'', ParseCodeGenRequest = []\<rparr>"
  using ParseOptions_trailing_colon
    [of sample_externals
        "\<lparr>GetParameter = ''markdown,docs/out.md,source_relative'', ParseCodeGenRequest = []\<rparr>"]
  by simp

subsection \<open>The exclusion filter\<close>

lemma matchLoop_None:
  "(matchLoop ext pats name = None) = (\<forall>p\<in>set pats. \<not> MatchString ext p name)"
  by (induction pats) auto

lemma matchLoop_Some:
  "(matchLoop ext pats name = Some i) =
     (i < length pats \<and> MatchString ext (pats ! i) name \<and> (\<forall>j<i. \<not> MatchString ext (pats ! j) name))"
proof (induction pats arbitrary: i)
  case Nil
  then show ?case by simp
next
  case (Cons p ps)
  show ?case
  proof (cases "MatchString ext p name")
    case True
    then show ?thesis by (cases i) auto
  next
    case False
    show ?thesis
    proof (cases i)
      case 0
      with False show ?thesis by auto
    next
      case (Suc k)
      have "(\<forall>j<Suc k. \<not> MatchString ext ((p # ps) ! j) name) =
          (\<forall>j<k. \<not> MatchString ext (ps ! j) name)"
        using False by (auto simp: less_Suc_eq_0_disj)
      with False Suc Cons.IH [of k] show ?thesis by auto
    qed
  qed
qed

lemma excludeLoop_filter:
  "excludeLoop ext fds pats descs =
     descs @ filter (\<lambda>d. matchLoop ext pats (GetName d) = None) fds"
  by (induction fds arbitrary: descs) (auto split: option.splits)

text \<open>C8. The exclusion filter keeps exactly the descriptors whose name no pattern
  matches, in their input order (it is a \<open>filter\<close> of the input list); with no pattern it
  returns the input list; it returns a list on every input, there is no error result. The
  patterns are tried in their order and the inner loop is left at the first pattern that
  matches: it exits at index \<open>i\<close> exactly when pattern \<open>i\<close> matches and none before it does,
  and runs to its end exactly when no pattern matches.\<close>

theorem excludeUnwantedProtos_filter:
  "excludeUnwantedProtos ext fds pats =
     filter (\<lambda>d. \<forall>p\<in>set pats. \<not> MatchString ext p (GetName d)) fds \<and>
   excludeUnwantedProtos ext fds [] = fds \<and>
   (\<forall>name i. (matchLoop ext pats name = Some i) =
      (i < length pats \<and> MatchString ext (pats ! i) name \<and>
       (\<forall>j<i. \<not> MatchString ext (pats ! j) name))) \<and>
   (\<forall>name. (matchLoop ext pats name = None) = (\<forall>p\<in>set pats. \<not> MatchString ext p name))"
  by (simp add: excludeUnwantedProtos_def excludeLoop_filter matchLoop_None matchLoop_Some)

theorem excludeUnwantedProtos_filter_witness:
  "excludeUnwantedProtos sample_externals
     [\<lparr>GetName = ''a/x.proto''\<rparr>, \<lparr>GetName = ''google/api.proto''\<rparr>, \<lparr>GetName = ''b/y.proto''\<rparr>,
      \<lparr>GetName = ''vendor/z.proto''\<rparr>]
     [''vendor/'', ''google/'', ''goo''] =
   [\<lparr>GetName = ''a/x.proto''\<rparr>, \<lparr>GetName = ''b/y.proto''\<rparr>] \<and>
   matchLoop sample_externals [''vendor/'', ''google/'', ''goo''] ''google/api.proto'' = Some 1"
proof -
  have m: "MatchString sample_externals = (\<lambda>rx name. strings_HasPrefix name rx)"
    by (simp add: sample_externals_def)
  have "matchLoop sample_externals [''vendor/'', ''google/'', ''goo''] ''google/api.proto'' = Some 1"
    using excludeUnwantedProtos_filter [of sample_externals "[]" "[''vendor/'', ''google/'', ''goo'']"]
    by (simp add: m strings_HasPrefix_def less_Suc_eq_0_disj)
  moreover have "excludeUnwantedProtos sample_externals
     [\<lparr>GetName = ''a/x.proto''\<rparr>, \<lparr>GetName = ''google/api.proto''\<rparr>, \<lparr>GetName = ''b/y.proto''\<rparr>,
      \<lparr>GetName = ''vendor/z.proto''\<rparr>]
     [''vendor/'', ''google/'', ''goo''] =
   [\<lparr>GetName = ''a/x.proto''\<rparr>, \<lparr>GetName = ''b/y.proto''\<rparr>]"
    using excludeUnwantedProtos_filter [of sample_externals _ "[''vendor/'', ''google/'', ''goo'']"]
    by (simp add: m strings_HasPrefix_def)
  ultimately show ?thesis by simp
qed

subsection \<open>Grouping\<close>

lemma groupLoop_map_of:
  "map_of (groupLoop fds sr g) k =
     (case map_of g k of
        None \<Rightarrow> (if filter (\<lambda>fd. groupKey sr fd = k) fds = [] then None
                  else Some (filter (\<lambda>fd. groupKey sr fd = k) fds))
      | Some old \<Rightarrow> Some (old @ filter (\<lambda>fd. groupKey sr fd = k) fds))"
proof (induction fds arbitrary: g)
  case Nil
  then show ?case by (simp split: option.splits)
next
  case (Cons fd fds)
  show ?case
    by (simp add: Cons.IH Let_def update_conv' mapIndex_def split: option.splits)
qed

lemma groupLoop_distinct:
  "distinct (map fst g) \<Longrightarrow> distinct (map fst (groupLoop fds sr g))"
  by (induction fds arbitrary: g) (simp_all add: Let_def distinct_update)

lemma groupLoop_single:
  "groupLoop fds False [(''./'', xs)] = [(''./'', xs @ fds)]"
  by (induction fds arbitrary: xs) (simp_all add: Let_def groupKey_def mapIndex_def)

lemma filepath_Split_parts:
  "fst (filepath_Split name) @ snd (filepath_Split name) = name \<and>
   CHR ''/'' \<notin> set (snd (filepath_Split name)) \<and>
   (fst (filepath_Split name) = [] \<or> last (fst (filepath_Split name)) = CHR ''/'')"
proof -
  let ?P = "\<lambda>c. c \<noteq> CHR ''/''"
  have 1: "rev (dropWhile ?P (rev name)) @ rev (takeWhile ?P (rev name)) = name"
    by (metis rev_append rev_rev_ident takeWhile_dropWhile_id)
  have 2: "CHR ''/'' \<notin> set (takeWhile ?P (rev name))"
    by (auto dest: set_takeWhileD)
  have 3: "dropWhile ?P (rev name) = [] \<or> hd (dropWhile ?P (rev name)) = CHR ''/''"
    using hd_dropWhile [of ?P "rev name"] by auto
  then have "dropWhile ?P (rev name) = [] \<or> last (rev (dropWhile ?P (rev name))) = CHR ''/''"
    by (auto simp: last_rev)
  with 1 2 show ?thesis by (simp add: filepath_Split_def)
qed

text \<open>C9. The group under a key is the list of the descriptors that have this key, in
  input order, and a key with no descriptor is absent; the keys of the map are distinct.
  Without \<open>sourceRelative\<close> every descriptor has the key \<^verbatim>\<open>"./"\<close>: the group under it is the
  whole input, and it is the only group (no group at all for an empty input). With
  \<open>sourceRelative\<close> the key is the directory part of the name, as \<^verbatim>\<open>filepath.Split\<close> gives it
  (the name up to and including its last slash), and \<^verbatim>\<open>"./"\<close> when that part is empty. So
  \<^verbatim>\<open>a/b.proto\<close> and \<^verbatim>\<open>a/c.proto\<close> share the group \<^verbatim>\<open>a/\<close>, and \<^verbatim>\<open>d.proto\<close> is in the group
  \<^verbatim>\<open>./\<close>.\<close>

theorem groupProtosByDirectory_groups:
  "map_of (groupProtosByDirectory fds sourceRelative) key =
     (if filter (\<lambda>fd. groupKey sourceRelative fd = key) fds = [] then None
      else Some (filter (\<lambda>fd. groupKey sourceRelative fd = key) fds)) \<and>
   distinct (map fst (groupProtosByDirectory fds sourceRelative)) \<and>
   groupKey False fd = ''./'' \<and>
   groupKey True fd =
     (if fst (filepath_Split (GetName fd)) = [] then ''./'' else fst (filepath_Split (GetName fd))) \<and>
   fst (filepath_Split (GetName fd)) @ snd (filepath_Split (GetName fd)) = GetName fd \<and>
   CHR ''/'' \<notin> set (snd (filepath_Split (GetName fd))) \<and>
   mapIndex (groupProtosByDirectory fds False) ''./'' = fds \<and>
   groupProtosByDirectory fds False = (if fds = [] then [] else [(''./'', fds)]) \<and>
   groupProtosByDirectory
     [\<lparr>GetName = ''a/b.proto''\<rparr>, \<lparr>GetName = ''a/c.proto''\<rparr>, \<lparr>GetName = ''d.proto''\<rparr>] True =
     [(''a/'', [\<lparr>GetName = ''a/b.proto''\<rparr>, \<lparr>GetName = ''a/c.proto''\<rparr>]),
      (''./'', [\<lparr>GetName = ''d.proto''\<rparr>])]"
proof -
  have single: "groupProtosByDirectory fds False = (if fds = [] then [] else [(''./'', fds)])"
  proof (cases fds)
    case Nil
    then show ?thesis by (simp add: groupProtosByDirectory_def)
  next
    case (Cons x xs)
    then show ?thesis
      using groupLoop_single [of xs "[x]"]
      by (simp add: groupProtosByDirectory_def Let_def groupKey_def mapIndex_def)
  qed
  have "mapIndex (groupProtosByDirectory fds False) ''./'' = fds"
    by (simp add: single mapIndex_def)
  moreover have "groupProtosByDirectory
     [\<lparr>GetName = ''a/b.proto''\<rparr>, \<lparr>GetName = ''a/c.proto''\<rparr>, \<lparr>GetName = ''d.proto''\<rparr>] True =
     [(''a/'', [\<lparr>GetName = ''a/b.proto''\<rparr>, \<lparr>GetName = ''a/c.proto''\<rparr>]),
      (''./'', [\<lparr>GetName = ''d.proto''\<rparr>])]"
    by (simp add: groupProtosByDirectory_def Let_def groupKey_def mapIndex_def filepath_Split_def)
  moreover have "map_of (groupProtosByDirectory fds sourceRelative) key =
     (if filter (\<lambda>fd. groupKey sourceRelative fd = key) fds = [] then None
      else Some (filter (\<lambda>fd. groupKey sourceRelative fd = key) fds))"
    by (simp add: groupProtosByDirectory_def groupLoop_map_of)
  moreover have "distinct (map fst (groupProtosByDirectory fds sourceRelative))"
    by (simp add: groupProtosByDirectory_def groupLoop_distinct)
  moreover have "groupKey False fd = ''./''"
    by (simp add: groupKey_def)
  moreover have "groupKey True fd =
     (if fst (filepath_Split (GetName fd)) = [] then ''./'' else fst (filepath_Split (GetName fd)))"
    by (simp add: groupKey_def Let_def)
  ultimately show ?thesis
    using single filepath_Split_parts [of "GetName fd"] by simp
qed

theorem groupProtosByDirectory_groups_witness:
  "map_of (groupProtosByDirectory
      [\<lparr>GetName = ''x/1.proto''\<rparr>, \<lparr>GetName = ''y/2.proto''\<rparr>, \<lparr>GetName = ''x/3.proto''\<rparr>,
       \<lparr>GetName = ''4.proto''\<rparr>] True) ''x/'' =
     Some [\<lparr>GetName = ''x/1.proto''\<rparr>, \<lparr>GetName = ''x/3.proto''\<rparr>] \<and>
   map_of (groupProtosByDirectory
      [\<lparr>GetName = ''x/1.proto''\<rparr>, \<lparr>GetName = ''y/2.proto''\<rparr>, \<lparr>GetName = ''x/3.proto''\<rparr>,
       \<lparr>GetName = ''4.proto''\<rparr>] True) ''./'' =
     Some [\<lparr>GetName = ''4.proto''\<rparr>] \<and>
   groupProtosByDirectory
      [\<lparr>GetName = ''x/1.proto''\<rparr>, \<lparr>GetName = ''y/2.proto''\<rparr>] False =
     [(''./'', [\<lparr>GetName = ''x/1.proto''\<rparr>, \<lparr>GetName = ''y/2.proto''\<rparr>])]"
proof -
  let ?fds = "[\<lparr>GetName = ''x/1.proto''\<rparr>, \<lparr>GetName = ''y/2.proto''\<rparr>, \<lparr>GetName = ''x/3.proto''\<rparr>,
       \<lparr>GetName = ''4.proto''\<rparr>]"
  have k: "map (groupKey True) ?fds = [''x/'', ''y/'', ''x/'', ''./'']"
    by (simp add: groupKey_def Let_def filepath_Split_def)
  have "map_of (groupProtosByDirectory ?fds True) ''x/'' =
     Some [\<lparr>GetName = ''x/1.proto''\<rparr>, \<lparr>GetName = ''x/3.proto''\<rparr>]"
    using groupProtosByDirectory_groups [of ?fds True "''x/''" "\<lparr>GetName = []\<rparr>"] k by simp
  moreover have "map_of (groupProtosByDirectory ?fds True) ''./'' = Some [\<lparr>GetName = ''4.proto''\<rparr>]"
    using groupProtosByDirectory_groups [of ?fds True "''./''" "\<lparr>GetName = []\<rparr>"] k by simp
  moreover have "groupProtosByDirectory
      [\<lparr>GetName = ''x/1.proto''\<rparr>, \<lparr>GetName = ''y/2.proto''\<rparr>] False =
     [(''./'', [\<lparr>GetName = ''x/1.proto''\<rparr>, \<lparr>GetName = ''y/2.proto''\<rparr>])]"
    using groupProtosByDirectory_groups
      [of "[\<lparr>GetName = ''x/1.proto''\<rparr>, \<lparr>GetName = ''y/2.proto''\<rparr>]" True "[]"
          "\<lparr>GetName = []\<rparr>"] by simp
  ultimately show ?thesis by simp
qed

subsection \<open>The exclusion part leaves the other options alone\<close>

lemma compilePatterns_Inr:
  "(compilePatterns ext pats options = Inr options') =
     (\<exists>rs. map (regexp_Compile ext) pats = map Inr rs \<and>
           options' = options\<lparr>ExcludePatterns := ExcludePatterns options @ rs\<rparr>)"
proof (induction pats arbitrary: options)
  case Nil
  then show ?case by auto
next
  case (Cons p ps)
  show ?case
  proof (cases "regexp_Compile ext p")
    case (Inl e)
    then show ?thesis by (auto simp: map_eq_Cons_conv)
  next
    case (Inr r)
    have "(\<exists>rs. map (regexp_Compile ext) (p # ps) = map Inr rs \<and>
              options' = options\<lparr>ExcludePatterns := ExcludePatterns options @ rs\<rparr>) =
          (\<exists>rs'. map (regexp_Compile ext) ps = map Inr rs' \<and>
              options' = options\<lparr>ExcludePatterns := ExcludePatterns options @ r # rs'\<rparr>)"
      (is "?L = ?R")
    proof
      assume ?L
      then obtain rs where rs: "map (regexp_Compile ext) (p # ps) = map Inr rs"
        "options' = options\<lparr>ExcludePatterns := ExcludePatterns options @ rs\<rparr>" by blast
      with Inr obtain rs' where "rs = r # rs'" "map (regexp_Compile ext) ps = map Inr rs'"
        by (cases rs) auto
      with rs show ?R by blast
    next
      assume ?R
      then obtain rs' where "map (regexp_Compile ext) ps = map Inr rs'"
        "options' = options\<lparr>ExcludePatterns := ExcludePatterns options @ r # rs'\<rparr>" by blast
      with Inr have "map (regexp_Compile ext) (p # ps) = map Inr (r # rs')" by simp
      with \<open>options' = _\<close> show ?L by blast
    qed
    with Inr Cons.IH [of "options\<lparr>ExcludePatterns := ExcludePatterns options @ [r]\<rparr>"]
    show ?thesis by simp
  qed
qed

lemma parseExcludePart_options:
  assumes "parseExcludePart ext p options = Inr (main, options')"
  shows "\<exists>rs. options' = options\<lparr>ExcludePatterns := ExcludePatterns options @ rs\<rparr>"
proof -
  have triv: "options = options\<lparr>ExcludePatterns := ExcludePatterns options @ []\<rparr>" by simp
  show ?thesis
  proof (cases "strings_Contains p (CHR '':'')")
    case False
    with assms have "options' = options" by (auto simp: parseExcludePart_def)
    with triv show ?thesis by blast
  next
    case True
    obtain m e where me: "splitExclude (strings_Split p (CHR '':'')) = (m, e)" by fastforce
    show ?thesis
    proof (cases "e = []")
      case True
      with assms \<open>strings_Contains p (CHR '':'')\<close> me have "options' = options"
        by (auto simp: parseExcludePart_def)
      with triv show ?thesis by blast
    next
      case False
      with assms True me
      have "compilePatterns ext (strings_Split e (CHR '','')) options = Inr options'"
        by (auto simp: parseExcludePart_def split: sum.splits)
      then show ?thesis by (auto simp: compilePatterns_Inr)
    qed
  qed
qed

lemma parseExcludePart_default:
  assumes "parseExcludePart ext p (defaultOptions ext) = Inr (main, options)"
  shows "options = \<lparr>Type = RenderTypeHTML ext, TemplateFile = [], OutputFile = ''index.html'',
      ExcludePatterns = ExcludePatterns options, SourceRelative = False\<rparr>"
  using parseExcludePart_options [OF assms] by (auto simp: defaultOptions_def)

subsection \<open>The main spec\<close>

lemma strings_Contains_length:
  "strings_Contains s sep = (2 \<le> length (strings_Split s sep))"
proof (cases "sep \<in> set s")
  case True
  then show ?thesis using count_list_pos [OF True]
    by (simp add: strings_Contains_def strings_Split_length)
next
  case False
  then show ?thesis
    by (simp add: strings_Contains_def strings_Split_def splitFrom_nosep)
qed

lemma path_Base_nonempty: "path_Base s \<noteq> []"
  by (simp add: path_Base_def Let_def)

lemma path_Base_slash: "CHR ''/'' \<in> set (path_Base s) \<Longrightarrow> path_Base s = ''/''"
  by (auto simp: path_Base_def Let_def dest: set_takeWhileD split: if_splits)

lemma path_Base_plain: "f \<noteq> [] \<Longrightarrow> CHR ''/'' \<notin> set f \<Longrightarrow> path_Base f = f"
proof -
  assume f: "f \<noteq> []" "CHR ''/'' \<notin> set f"
  then have "hd (rev f) \<noteq> CHR ''/''"
    by (metis hd_rev last_in_set)
  with f have d: "dropWhile (\<lambda>c. c = CHR ''/'') (rev f) = rev f"
    by (cases "rev f") auto
  from f have tw: "takeWhile (\<lambda>c. c \<noteq> CHR ''/'') (rev f) = rev f"
    by (auto simp: takeWhile_eq_all_conv)
  from f show ?thesis by (simp add: path_Base_def d tw)
qed

lemma path_Base_dir:
  assumes f: "f \<noteq> []" "CHR ''/'' \<notin> set f"
  shows "path_Base (d @ ''/'' @ f) = f"
proof -
  from f have "hd (rev f) \<noteq> CHR ''/''"
    by (metis hd_rev last_in_set)
  with f have d: "dropWhile (\<lambda>c. c = CHR ''/'') (rev f @ CHR ''/'' # rev d) = rev f @ CHR ''/'' # rev d"
    by (cases "rev f") auto
  from f have tw: "takeWhile (\<lambda>c. c \<noteq> CHR ''/'') (rev f @ CHR ''/'' # rev d) = rev f"
    by (auto simp: takeWhile_append)
  from f show ?thesis by (simp add: path_Base_def d tw)
qed

text \<open>C7. Let \<open>main\<close> be the non-empty main spec that the first half of \<open>ParseOptions\<close>
  isolates (the whole parameter when it has no colon), and \<open>parts\<close> its comma-separated
  fields. \<open>ParseOptions\<close> fails exactly when \<open>main\<close> has no comma (one field), or has
  fewer than two or more than three fields, or has a third field that is neither
  \<^verbatim>\<open>source_relative\<close> nor \<^verbatim>\<open>default\<close>; the error is then \<^verbatim>\<open>Invalid parameter\<close> with the main
  spec. When it succeeds, \<open>SourceRelative\<close> is set exactly when the third field is
  \<^verbatim>\<open>source_relative\<close>; with \<^verbatim>\<open>default\<close> or no third field it is not set.\<close>

theorem ParseOptions_main_spec_shapes:
  assumes iso: "parseExcludePart ext (GetParameter req) (defaultOptions ext) = Inr (main, options)"
    and ne: "main \<noteq> []"
    and parts: "parts = strings_Split main (CHR '','')"
  shows "((\<exists>err. ParseOptions ext req = Inl err) =
            (\<not> strings_Contains main (CHR '','') \<or> length parts < 2 \<or> 3 < length parts \<or>
             (length parts = 3 \<and> parts ! 2 \<noteq> ''source_relative'' \<and> parts ! 2 \<noteq> ''default''))) \<and>
         (\<forall>err. ParseOptions ext req = Inl err \<longrightarrow> err = Errorf (''Invalid parameter: '' @ main)) \<and>
         (\<forall>opts. ParseOptions ext req = Inr opts \<longrightarrow>
            SourceRelative opts = (length parts = 3 \<and> parts ! 2 = ''source_relative'')) \<and>
         (\<not> strings_Contains main (CHR '','') \<longrightarrow> length parts = 1)"
proof -
  have po: "ParseOptions ext req = parseMainSpec ext main options"
    using iso by (simp add: ParseOptions_def)
  have one: "\<not> strings_Contains main (CHR '','') \<longrightarrow> length parts = 1"
    by (simp add: parts strings_Contains_def strings_Split_def splitFrom_nosep)
  consider (nocomma) "\<not> strings_Contains main (CHR '','')"
    | (count) "strings_Contains main (CHR '','')" "length parts < 2 \<or> 3 < length parts"
    | (two) "strings_Contains main (CHR '','')" "length parts = 2"
    | (three) "strings_Contains main (CHR '','')" "length parts = 3"
    by linarith
  then show ?thesis
  proof cases
    case nocomma
    with ne one show ?thesis by (simp add: po parseMainSpec_def)
  next
    case count
    with ne one show ?thesis
      by (auto simp: po parseMainSpec_def Let_def parts [symmetric])
  next
    case two
    with ne one show ?thesis
      by (auto simp: po parseMainSpec_def Let_def parts [symmetric] split: sum.splits)
  next
    case three
    with ne one show ?thesis
      by (auto simp: po parseMainSpec_def Let_def parts [symmetric] split: sum.splits)
  qed
qed

theorem ParseOptions_main_spec_shapes_witness:
  "parseExcludePart sample_externals ''html,out.html,relative:vendor/'' (defaultOptions sample_externals) =
     Inr (''html,out.html,relative'', (defaultOptions sample_externals)\<lparr>ExcludePatterns := [''vendor/'']\<rparr>) \<and>
   ParseOptions sample_externals
     \<lparr>GetParameter = ''html,out.html,relative:vendor/'', ParseCodeGenRequest = []\<rparr> =
     Inl (Errorf ''Invalid parameter: html,out.html,relative'')"
proof -
  let ?req = "\<lparr>GetParameter = ''html,out.html,relative:vendor/'', ParseCodeGenRequest = []\<rparr>"
  have c: "regexp_Compile sample_externals ''vendor/'' = Inr ''vendor/''"
    by (simp add: sample_externals_def)
  have iso: "parseExcludePart sample_externals (GetParameter ?req) (defaultOptions sample_externals) =
     Inr (''html,out.html,relative'', (defaultOptions sample_externals)\<lparr>ExcludePatterns := [''vendor/'']\<rparr>)"
    by (simp add: parseExcludePart_def strings_Contains_def strings_Split_def splitExclude_def
        winPathHeuristic_def strings_HasPrefix_def c defaultOptions_def)
  have parts: "[''html'', ''out.html'', ''relative''] = strings_Split ''html,out.html,relative'' (CHR '','')"
    by (simp add: strings_Split_def)
  have "\<exists>err. ParseOptions sample_externals ?req = Inl err"
    using ParseOptions_main_spec_shapes [OF iso _ parts] by simp
  moreover have "\<forall>err. ParseOptions sample_externals ?req = Inl err \<longrightarrow>
      err = Errorf ''Invalid parameter: html,out.html,relative''"
    using ParseOptions_main_spec_shapes [OF iso _ parts] by simp
  ultimately have "ParseOptions sample_externals ?req =
      Inl (Errorf ''Invalid parameter: html,out.html,relative'')"
    by blast
  with iso show ?thesis by simp
qed

text \<open>C6, as amended. For a main spec of two fields, or of three with a third field
  \<^verbatim>\<open>source_relative\<close> or \<^verbatim>\<open>default\<close>, \<open>ParseOptions\<close> succeeds. When \<^verbatim>\<open>NewRenderType\<close>
  recognises the first field, \<open>Type\<close> is that render type and there is no template file;
  when it does not, the first field is the template file and \<open>Type\<close> keeps its default,
  the built-in HTML renderer: it is not cleared. The output file name is \<^verbatim>\<open>path.Base\<close> of
  the second field: it is never empty, has no slash unless it is \<^verbatim>\<open>"/"\<close> itself, and is
  the last component \<open>f\<close> of a field \<open>f\<close> or \<open>d/f\<close>. The exclusion patterns are those of the
  exclusion part.\<close>

theorem ParseOptions_fields:
  assumes iso: "parseExcludePart ext (GetParameter req) (defaultOptions ext) = Inr (main, options)"
    and parts: "parts = strings_Split main (CHR '','')"
    and shape: "length parts = 2 \<or>
        (length parts = 3 \<and> (parts ! 2 = ''source_relative'' \<or> parts ! 2 = ''default''))"
  shows "ParseOptions ext req =
           Inr (case NewRenderType ext (parts ! 0) of
                  Inr renderType \<Rightarrow>
                    \<lparr>Type = renderType, TemplateFile = [], OutputFile = path_Base (parts ! 1),
                     ExcludePatterns = ExcludePatterns options,
                     SourceRelative = (length parts = 3 \<and> parts ! 2 = ''source_relative'')\<rparr>
                | Inl _ \<Rightarrow>
                    \<lparr>Type = RenderTypeHTML ext, TemplateFile = parts ! 0,
                     OutputFile = path_Base (parts ! 1),
                     ExcludePatterns = ExcludePatterns options,
                     SourceRelative = (length parts = 3 \<and> parts ! 2 = ''source_relative'')\<rparr>) \<and>
         path_Base (parts ! 1) \<noteq> [] \<and>
         (CHR ''/'' \<in> set (path_Base (parts ! 1)) \<longrightarrow> path_Base (parts ! 1) = ''/'') \<and>
         (\<forall>d f. f \<noteq> [] \<and> CHR ''/'' \<notin> set f \<and> (parts ! 1 = f \<or> parts ! 1 = d @ ''/'' @ f) \<longrightarrow>
            path_Base (parts ! 1) = f)"
proof -
  have po: "ParseOptions ext req = parseMainSpec ext main options"
    using iso by (simp add: ParseOptions_def)
  have opts: "options = \<lparr>Type = RenderTypeHTML ext, TemplateFile = [], OutputFile = ''index.html'',
      ExcludePatterns = ExcludePatterns options, SourceRelative = False\<rparr>"
    by (rule parseExcludePart_default [OF iso])
  from shape have len: "2 \<le> length parts" by auto
  then have comma: "strings_Contains main (CHR '','')"
    by (simp add: strings_Contains_length parts)
  then have ne: "main \<noteq> []"
    by (auto simp: strings_Contains_def)
  have base: "\<forall>d f. f \<noteq> [] \<and> CHR ''/'' \<notin> set f \<and> (parts ! 1 = f \<or> parts ! 1 = d @ ''/'' @ f) \<longrightarrow>
            path_Base (parts ! 1) = f"
    using path_Base_plain path_Base_dir by metis
  have "parseMainSpec ext main options =
           Inr (case NewRenderType ext (parts ! 0) of
                  Inr renderType \<Rightarrow>
                    \<lparr>Type = renderType, TemplateFile = [], OutputFile = path_Base (parts ! 1),
                     ExcludePatterns = ExcludePatterns options,
                     SourceRelative = (length parts = 3 \<and> parts ! 2 = ''source_relative'')\<rparr>
                | Inl _ \<Rightarrow>
                    \<lparr>Type = RenderTypeHTML ext, TemplateFile = parts ! 0,
                     OutputFile = path_Base (parts ! 1),
                     ExcludePatterns = ExcludePatterns options,
                     SourceRelative = (length parts = 3 \<and> parts ! 2 = ''source_relative'')\<rparr>)"
    using shape ne comma
    by (subst opts) (auto simp: parseMainSpec_def Let_def parts [symmetric] split: sum.splits)
  with po base show ?thesis
    using path_Base_nonempty [of "parts ! 1"] path_Base_slash [of "parts ! 1"] by simp
qed

theorem ParseOptions_fields_witness:
  "ParseOptions sample_externals
     \<lparr>GetParameter = ''markdown,docs/api/out.md,source_relative:vendor/,google/'',
      ParseCodeGenRequest = []\<rparr> =
     Inr \<lparr>Type = ''markdown'', TemplateFile = [], OutputFile = ''out.md'',
          ExcludePatterns = [''vendor/'', ''google/''], SourceRelative = True\<rparr>"
proof -
  let ?req = "\<lparr>GetParameter = ''markdown,docs/api/out.md,source_relative:vendor/,google/'',
      ParseCodeGenRequest = []\<rparr>"
  have c: "regexp_Compile sample_externals ''vendor/'' = Inr ''vendor/''"
    "regexp_Compile sample_externals ''google/'' = Inr ''google/''"
    by (simp_all add: sample_externals_def)
  have iso: "parseExcludePart sample_externals (GetParameter ?req) (defaultOptions sample_externals) =
     Inr (''markdown,docs/api/out.md,source_relative'',
          (defaultOptions sample_externals)\<lparr>ExcludePatterns := [''vendor/'', ''google/'']\<rparr>)"
    by (simp add: parseExcludePart_def strings_Contains_def strings_Split_def splitExclude_def
        winPathHeuristic_def strings_HasPrefix_def c defaultOptions_def)
  have parts: "[''markdown'', ''docs/api/out.md'', ''source_relative''] =
      strings_Split ''markdown,docs/api/out.md,source_relative'' (CHR '','')"
    by (simp add: strings_Split_def)
  have n: "NewRenderType sample_externals ''markdown'' = Inr ''markdown''"
    by (simp add: sample_externals_def)
  have b: "path_Base ''docs/api/out.md'' = ''out.md''"
    by (simp add: path_Base_def)
  show ?thesis
    using ParseOptions_fields [OF iso parts] by (simp add: n b)
qed

text \<open>With a template path that is no render type, the options hold the template file and
  the built-in HTML renderer both.\<close>

theorem ParseOptions_type_not_cleared:
  "ParseOptions sample_externals \<lparr>GetParameter = ''tmpl.txt,out.md'', ParseCodeGenRequest = []\<rparr> =
     Inr \<lparr>Type = RenderTypeHTML sample_externals, TemplateFile = ''tmpl.txt'',
          OutputFile = ''out.md'', ExcludePatterns = [], SourceRelative = False\<rparr>"
  by (simp add: ParseOptions_def parseExcludePart_def parseMainSpec_def strings_Contains_def
      strings_Split_def defaultOptions_def path_Base_def sample_externals_def)

subsection \<open>The rendering loop\<close>

lemma renderLoop_ok:
  assumes "\<forall>g\<in>set gs. \<exists>out. RenderTemplate ext (Type options) (NewTemplate ext (snd g)) ct = Inr out"
  shows "renderLoop ext options ct gs files =
     Inr (files @ map (\<lambda>g. \<lparr>Name = filepath_Join ext (fst g) (OutputFile options),
                           Content = projr (RenderTemplate ext (Type options) (NewTemplate ext (snd g)) ct)\<rparr>) gs)"
  using assms
proof (induction gs arbitrary: files)
  case Nil
  then show ?case by simp
next
  case (Cons g gs)
  obtain dir fds where g: "g = (dir, fds)" by (cases g)
  from Cons.prems obtain out where
    out: "RenderTemplate ext (Type options) (NewTemplate ext fds) ct = Inr out"
    by (auto simp: g)
  from Cons.prems have rest:
    "\<forall>g\<in>set gs. \<exists>out. RenderTemplate ext (Type options) (NewTemplate ext (snd g)) ct = Inr out"
    by simp
  show ?case
    by (simp add: g out Cons.IH [OF rest])
qed

lemma renderLoop_fail:
  assumes "\<forall>g\<in>set pre. \<exists>out. RenderTemplate ext (Type options) (NewTemplate ext (snd g)) ct = Inr out"
    and "RenderTemplate ext (Type options) (NewTemplate ext fds) ct = Inl cause"
  shows "renderLoop ext options ct (pre @ (dir, fds) # post) files = Inl (External cause)"
  using assms(1)
proof (induction pre arbitrary: files)
  case Nil
  then show ?case by (simp add: assms(2))
next
  case (Cons g pre)
  obtain d f where g: "g = (d, f)" by (cases g)
  from Cons.prems obtain out where
    out: "RenderTemplate ext (Type options) (NewTemplate ext f) ct = Inr out"
    by (auto simp: g)
  from Cons.prems have rest:
    "\<forall>g\<in>set pre. \<exists>out. RenderTemplate ext (Type options) (NewTemplate ext (snd g)) ct = Inr out"
    by simp
  show ?case
    by (simp add: g out Cons.IH [OF rest])
qed

lemma first_failure:
  assumes "\<exists>g\<in>set gs. \<exists>cause. f g = Inl cause"
  shows "\<exists>pre g post cause. gs = pre @ g # post \<and> (\<forall>h\<in>set pre. \<exists>out. f h = Inr out) \<and>
           f g = Inl cause"
proof -
  from assms have "\<exists>g\<in>set gs. isl (f g)" by (auto simp: isl_def)
  then obtain pre g post where "gs = pre @ g # post" "isl (f g)" "\<forall>h\<in>set pre. \<not> isl (f h)"
    by (auto simp: split_list_first_prop_iff)
  moreover from \<open>isl (f g)\<close> obtain cause where "f g = Inl cause" by (auto simp: isl_def)
  moreover have "\<forall>h\<in>set pre. \<exists>out. f h = Inr out"
  proof
    fix h assume "h \<in> set pre"
    with \<open>\<forall>h\<in>set pre. \<not> isl (f h)\<close> have "\<not> isl (f h)" by blast
    then show "\<exists>out. f h = Inr out" by (cases "f h") auto
  qed
  ultimately show ?thesis by blast
qed

lemma renderLoop_first_failure:
  assumes "\<exists>g\<in>set gs. \<exists>cause. RenderTemplate ext (Type options) (NewTemplate ext (snd g)) ct = Inl cause"
  shows "\<exists>pre dir fds post cause. gs = pre @ (dir, fds) # post \<and>
           (\<forall>h\<in>set pre. \<exists>out. RenderTemplate ext (Type options) (NewTemplate ext (snd h)) ct = Inr out) \<and>
           RenderTemplate ext (Type options) (NewTemplate ext fds) ct = Inl cause \<and>
           renderLoop ext options ct gs files = Inl (External cause)"
proof -
  from first_failure [OF assms]
  obtain pre g post cause where d: "gs = pre @ g # post"
    "\<forall>h\<in>set pre. \<exists>out. RenderTemplate ext (Type options) (NewTemplate ext (snd h)) ct = Inr out"
    "RenderTemplate ext (Type options) (NewTemplate ext (snd g)) ct = Inl cause"
    by blast
  obtain dir fds where g: "g = (dir, fds)" by (cases g)
  from d g have "renderLoop ext options ct gs files = Inl (External cause)"
    using renderLoop_fail [of pre ext options ct fds cause dir post files] by simp
  with d g show ?thesis by auto
qed

lemma all_or_failure:
  "(\<forall>g\<in>set gs. \<exists>out. (f g :: 'a + 'b) = Inr out) \<or> (\<exists>g\<in>set gs. \<exists>cause. f g = Inl cause)"
  by (metis sum.exhaust)

lemma mset_short: "mset xs = mset m \<Longrightarrow> length m \<le> 1 \<Longrightarrow> xs = m"
proof -
  assume a: "mset xs = mset m" "length m \<le> 1"
  then have l: "length xs = length m" by (metis size_mset)
  show ?thesis
  proof (cases m)
    case Nil
    with a show ?thesis by simp
  next
    case (Cons y ys)
    with a have "ys = []" by simp
    with Cons a l show ?thesis by (cases xs) auto
  qed
qed

lemma groupProtosByDirectory_False_short:
  "length (groupProtosByDirectory fds False) \<le> 1"
proof (cases fds)
  case Nil
  then show ?thesis by (simp add: groupProtosByDirectory_def)
next
  case (Cons x xs)
  then show ?thesis
    using groupLoop_single [of xs "[x]"]
    by (simp add: groupProtosByDirectory_def Let_def groupKey_def mapIndex_def)
qed

text \<open>C4, as amended. When the options parse, the template (if any) is read and the
  render call fails for some group of the map, \<open>Generate\<close> returns no response but an
  error: the error that \<^verbatim>\<open>RenderTemplate\<close> returned for the first failing group in the
  order of the enumeration, as it is. The error is the cause alone; the key of the group is
  not part of it.\<close>

theorem Generate_render_failure:
  assumes ro: "validRangeOrder rangeOrder"
    and po: "ParseOptions ext r = Inr options"
    and rd: "(if TemplateFile options \<noteq> [] then ReadFile ext (TemplateFile options) else Inr []) =
              Inr customTemplate"
    and gr: "groups = groupProtosByDirectory
              (excludeUnwantedProtos ext (ParseCodeGenRequest r) (ExcludePatterns options))
              (SourceRelative options)"
    and mem: "(dir, fds) \<in> set groups"
    and fail: "RenderTemplate ext (Type options) (NewTemplate ext fds) customTemplate = Inl cause"
  shows "\<exists>pre dir' fds' post cause'.
           rangeOrder groups = pre @ (dir', fds') # post \<and>
           (dir', fds') \<in> set groups \<and>
           (\<forall>g\<in>set pre. \<exists>out.
              RenderTemplate ext (Type options) (NewTemplate ext (snd g)) customTemplate = Inr out) \<and>
           RenderTemplate ext (Type options) (NewTemplate ext fds') customTemplate = Inl cause' \<and>
           Generate ext rangeOrder r = Inl (External cause')"
proof -
  from ro have "mset (rangeOrder groups) = mset groups"
    by (simp add: validRangeOrder_def)
  then have sets: "set (rangeOrder groups) = set groups"
    by (rule mset_eq_setD)
  with mem fail have "\<exists>g\<in>set (rangeOrder groups). \<exists>cause.
      RenderTemplate ext (Type options) (NewTemplate ext (snd g)) customTemplate = Inl cause"
    by force
  from renderLoop_first_failure [OF this, of "[]"]
  obtain pre dir' fds' post cause' where d:
    "rangeOrder groups = pre @ (dir', fds') # post"
    "\<forall>h\<in>set pre. \<exists>out.
        RenderTemplate ext (Type options) (NewTemplate ext (snd h)) customTemplate = Inr out"
    "RenderTemplate ext (Type options) (NewTemplate ext fds') customTemplate = Inl cause'"
    "renderLoop ext options customTemplate (rangeOrder groups) [] = Inl (External cause')"
    by blast
  from d(1) sets have "(dir', fds') \<in> set groups"
    by (metis in_set_conv_decomp)
  moreover have "Generate ext rangeOrder r = Inl (External cause')"
    using po rd d(4) by (simp add: Generate_def Let_def gr [symmetric])
  ultimately show ?thesis using d(1,2,3) by blast
qed

lemma validRangeOrder_id: "validRangeOrder (\<lambda>m. m)"
  by (simp add: validRangeOrder_def)

lemma validRangeOrder_rev: "validRangeOrder rev"
  by (simp add: validRangeOrder_def)

theorem Generate_render_failure_witness:
  "validRangeOrder (rev :: unit fdsGroup \<Rightarrow> unit fdsGroup) \<and>
   ParseOptions sample_externals
     \<lparr>GetParameter = ''bad.tmpl,out.md,source_relative'',
      ParseCodeGenRequest = [\<lparr>GetName = ''a/x.proto''\<rparr>, \<lparr>GetName = ''b/y.proto''\<rparr>]\<rparr> =
     Inr \<lparr>Type = ''html'', TemplateFile = ''bad.tmpl'', OutputFile = ''out.md'',
          ExcludePatterns = [], SourceRelative = True\<rparr> \<and>
   ReadFile sample_externals ''bad.tmpl'' = Inr ''{{'' \<and>
   groupProtosByDirectory [\<lparr>GetName = ''a/x.proto''\<rparr>, \<lparr>GetName = ''b/y.proto''\<rparr>] True =
     [(''a/'', [\<lparr>GetName = ''a/x.proto''\<rparr>]), (''b/'', [\<lparr>GetName = ''b/y.proto''\<rparr>])] \<and>
   RenderTemplate sample_externals ''html''
     (NewTemplate sample_externals [\<lparr>GetName = ''a/x.proto''\<rparr>]) ''{{'' = Inl ''unexpected {{'' \<and>
   Generate sample_externals rev
     \<lparr>GetParameter = ''bad.tmpl,out.md,source_relative'',
      ParseCodeGenRequest = [\<lparr>GetName = ''a/x.proto''\<rparr>, \<lparr>GetName = ''b/y.proto''\<rparr>]\<rparr> =
     Inl (External ''unexpected {{'')"
proof -
  let ?fds = "[\<lparr>GetName = ''a/x.proto''\<rparr>, \<lparr>GetName = ''b/y.proto''\<rparr>]"
  let ?r = "\<lparr>GetParameter = ''bad.tmpl,out.md,source_relative'', ParseCodeGenRequest = ?fds\<rparr>"
  let ?options = "\<lparr>Type = ''html'', TemplateFile = ''bad.tmpl'', OutputFile = ''out.md'',
          ExcludePatterns = ([] :: string list), SourceRelative = True\<rparr>"
  let ?groups = "[(''a/'', [\<lparr>GetName = ''a/x.proto''\<rparr>]), (''b/'', [\<lparr>GetName = ''b/y.proto''\<rparr>])]"
  have po: "ParseOptions sample_externals ?r = Inr ?options"
    by (simp add: ParseOptions_def parseExcludePart_def parseMainSpec_def strings_Contains_def
        strings_Split_def defaultOptions_def path_Base_def sample_externals_def)
  have rf: "ReadFile sample_externals ''bad.tmpl'' = Inr ''{{''"
    by (simp add: sample_externals_def)
  then have rd: "(if TemplateFile ?options \<noteq> [] then ReadFile sample_externals (TemplateFile ?options)
      else Inr []) = Inr ''{{''"
    by simp
  have g: "groupProtosByDirectory ?fds True = ?groups"
    by (simp add: groupProtosByDirectory_def Let_def groupKey_def mapIndex_def filepath_Split_def)
  have gr: "?groups = groupProtosByDirectory
      (excludeUnwantedProtos sample_externals (ParseCodeGenRequest ?r) (ExcludePatterns ?options))
      (SourceRelative ?options)"
    by (simp add: g excludeUnwantedProtos_def)
  have mem: "(''a/'', [\<lparr>GetName = ''a/x.proto''\<rparr>]) \<in> set ?groups"
    by simp
  have fl: "RenderTemplate sample_externals ''html''
     (NewTemplate sample_externals [\<lparr>GetName = ''a/x.proto''\<rparr>]) ''{{'' = Inl ''unexpected {{''"
    by (simp add: sample_externals_def)
  then have fail: "RenderTemplate sample_externals (Type ?options)
     (NewTemplate sample_externals [\<lparr>GetName = ''a/x.proto''\<rparr>]) ''{{'' = Inl ''unexpected {{''"
    by simp
  have every: "\<And>fds' cause'. RenderTemplate sample_externals (Type ?options)
      (NewTemplate sample_externals fds') ''{{'' = Inl cause' \<Longrightarrow> cause' = ''unexpected {{''"
    by (simp add: sample_externals_def)
  from Generate_render_failure [OF validRangeOrder_rev po rd gr mem fail]
  obtain fds' cause' where
    "RenderTemplate sample_externals (Type ?options) (NewTemplate sample_externals fds') ''{{'' =
       Inl cause'"
    "Generate sample_externals rev ?r = Inl (External cause')"
    by blast
  with every have "Generate sample_externals rev ?r = Inl (External ''unexpected {{'')"
    by blast
  with po rf g fl validRangeOrder_rev show ?thesis by simp
qed

text \<open>A template that does not render fails for the group \<^verbatim>\<open>a/\<close> of one request and for the
  group \<^verbatim>\<open>b/\<close> of another with the same error value: the key is not in it.\<close>

theorem Generate_error_without_group_key:
  "map fst (groupProtosByDirectory [\<lparr>GetName = ''a/x.proto''\<rparr>] True) = [''a/''] \<and>
   map fst (groupProtosByDirectory [\<lparr>GetName = ''b/x.proto''\<rparr>] True) = [''b/''] \<and>
   Generate sample_externals (\<lambda>m. m)
     \<lparr>GetParameter = ''bad.tmpl,out.md,source_relative'',
      ParseCodeGenRequest = [\<lparr>GetName = ''a/x.proto''\<rparr>]\<rparr> =
     Inl (External ''unexpected {{'') \<and>
   Generate sample_externals (\<lambda>m. m)
     \<lparr>GetParameter = ''bad.tmpl,out.md,source_relative'',
      ParseCodeGenRequest = [\<lparr>GetName = ''b/x.proto''\<rparr>]\<rparr> =
     Inl (External ''unexpected {{'')"
proof -
  have po: "\<And>fds. ParseOptions sample_externals
      \<lparr>GetParameter = ''bad.tmpl,out.md,source_relative'',
       ParseCodeGenRequest = (fds :: FileDescriptor list)\<rparr> =
     Inr \<lparr>Type = ''html'', TemplateFile = ''bad.tmpl'', OutputFile = ''out.md'',
          ExcludePatterns = [], SourceRelative = True\<rparr>"
    by (simp add: ParseOptions_def parseExcludePart_def parseMainSpec_def strings_Contains_def
        strings_Split_def defaultOptions_def path_Base_def sample_externals_def)
  have ga: "groupProtosByDirectory [\<lparr>GetName = ''a/x.proto''\<rparr>] True =
      [(''a/'', [\<lparr>GetName = ''a/x.proto''\<rparr>])]"
    by (simp add: groupProtosByDirectory_def Let_def groupKey_def mapIndex_def filepath_Split_def)
  have gb: "groupProtosByDirectory [\<lparr>GetName = ''b/x.proto''\<rparr>] True =
      [(''b/'', [\<lparr>GetName = ''b/x.proto''\<rparr>])]"
    by (simp add: groupProtosByDirectory_def Let_def groupKey_def mapIndex_def filepath_Split_def)
  have ext: "ReadFile sample_externals ''bad.tmpl'' = Inr ''{{''"
    "\<And>names. RenderTemplate sample_externals ''html'' names ''{{'' = Inl ''unexpected {{''"
    by (simp_all add: sample_externals_def)
  show ?thesis
    by (simp add: Generate_def po Let_def excludeUnwantedProtos_def ga gb ext)
qed

text \<open>C1, as amended. Two runs on the same request with the same collaborators differ
  at most in the order in which \<^verbatim>\<open>range\<close> visits the groups. They both fail or both
  succeed. When they succeed, the two responses hold the same entries, each as often
  (equal as multisets), and the same feature flag; the order of the entries is the order
  of the enumeration, which Go does not fix. When the options are not source-relative
  there is one group at most, and the two results are equal.\<close>

theorem Generate_up_to_order:
  assumes ro: "validRangeOrder rangeOrder" and ro': "validRangeOrder rangeOrder'"
  shows "((\<exists>err. Generate ext rangeOrder r = Inl err) = (\<exists>err. Generate ext rangeOrder' r = Inl err)) \<and>
         (\<forall>resp resp'. Generate ext rangeOrder r = Inr resp \<and> Generate ext rangeOrder' r = Inr resp' \<longrightarrow>
            mset (File resp) = mset (File resp') \<and>
            resp_SupportedFeatures resp = resp_SupportedFeatures resp') \<and>
         ((\<forall>options. ParseOptions ext r = Inr options \<longrightarrow> \<not> SourceRelative options) \<longrightarrow>
            Generate ext rangeOrder r = Generate ext rangeOrder' r)"
proof (cases "ParseOptions ext r")
  case (Inl err)
  then show ?thesis by (simp add: Generate_def)
next
  case (Inr options)
  note po = this
  show ?thesis
  proof (cases "if TemplateFile options \<noteq> [] then ReadFile ext (TemplateFile options) else Inr []")
    case (Inl err)
    with po show ?thesis by (simp add: Generate_def Let_def)
  next
    case (Inr ct)
    note rd = this
    define groups where "groups = groupProtosByDirectory
        (excludeUnwantedProtos ext (ParseCodeGenRequest r) (ExcludePatterns options))
        (SourceRelative options)"
    define entry where "entry = (\<lambda>g. \<lparr>Name = filepath_Join ext (fst g) (OutputFile options),
        Content = projr (RenderTemplate ext (Type options) (NewTemplate ext (snd g)) ct)\<rparr>)"
    have gen: "\<And>order. Generate ext order r =
        (case renderLoop ext options ct (order groups) [] of
           Inl err \<Rightarrow> Inl err
         | Inr files \<Rightarrow> Inr \<lparr>File = files, resp_SupportedFeatures = Some (SupportedFeatures ext)\<rparr>)"
      using po rd by (simp add: Generate_def Let_def groups_def)
    from ro have m: "mset (rangeOrder groups) = mset groups"
      by (simp add: validRangeOrder_def)
    from ro' have m': "mset (rangeOrder' groups) = mset groups"
      by (simp add: validRangeOrder_def)
    from m have s: "set (rangeOrder groups) = set groups" by (rule mset_eq_setD)
    from m' have s': "set (rangeOrder' groups) = set groups" by (rule mset_eq_setD)
    have short: "\<not> SourceRelative options \<longrightarrow> rangeOrder groups = rangeOrder' groups"
    proof
      assume "\<not> SourceRelative options"
      then have "length groups \<le> 1"
        using groupProtosByDirectory_False_short
          [of "excludeUnwantedProtos ext (ParseCodeGenRequest r) (ExcludePatterns options)"]
        by (simp add: groups_def)
      with m m' show "rangeOrder groups = rangeOrder' groups"
        by (metis mset_short)
    qed
    have same: "\<not> SourceRelative options \<longrightarrow> Generate ext rangeOrder r = Generate ext rangeOrder' r"
      using short by (simp add: gen)
    show ?thesis
    proof (cases "\<forall>g\<in>set groups. \<exists>out.
        RenderTemplate ext (Type options) (NewTemplate ext (snd g)) ct = Inr out")
      case True
      have "renderLoop ext options ct (rangeOrder groups) [] = Inr (map entry (rangeOrder groups))"
        using renderLoop_ok [of "rangeOrder groups" ext options ct "[]"] True s
        by (simp add: entry_def)
      then have g1: "Generate ext rangeOrder r =
          Inr \<lparr>File = map entry (rangeOrder groups),
               resp_SupportedFeatures = Some (SupportedFeatures ext)\<rparr>"
        by (simp add: gen)
      have "renderLoop ext options ct (rangeOrder' groups) [] = Inr (map entry (rangeOrder' groups))"
        using renderLoop_ok [of "rangeOrder' groups" ext options ct "[]"] True s'
        by (simp add: entry_def)
      then have g2: "Generate ext rangeOrder' r =
          Inr \<lparr>File = map entry (rangeOrder' groups),
               resp_SupportedFeatures = Some (SupportedFeatures ext)\<rparr>"
        by (simp add: gen)
      have "mset (map entry (rangeOrder groups)) = mset (map entry (rangeOrder' groups))"
        using m m' by (metis mset_map)
      with g1 g2 same po show ?thesis by auto
    next
      case False
      then have bad: "\<exists>g\<in>set groups. \<exists>cause.
          RenderTemplate ext (Type options) (NewTemplate ext (snd g)) ct = Inl cause"
        using all_or_failure [of groups "\<lambda>g. RenderTemplate ext (Type options) (NewTemplate ext (snd g)) ct"]
        by blast
      from bad s have "\<exists>g\<in>set (rangeOrder groups). \<exists>cause.
          RenderTemplate ext (Type options) (NewTemplate ext (snd g)) ct = Inl cause" by simp
      from renderLoop_first_failure [OF this, of "[]"]
      obtain cause where f1: "renderLoop ext options ct (rangeOrder groups) [] = Inl (External cause)"
        by blast
      from bad s' have "\<exists>g\<in>set (rangeOrder' groups). \<exists>cause.
          RenderTemplate ext (Type options) (NewTemplate ext (snd g)) ct = Inl cause" by simp
      from renderLoop_first_failure [OF this, of "[]"]
      obtain cause' where f2: "renderLoop ext options ct (rangeOrder' groups) [] = Inl (External cause')"
        by blast
      from f1 f2 same po show ?thesis by (simp add: gen)
    qed
  qed
qed

theorem Generate_up_to_order_witness:
  "validRangeOrder (\<lambda>m :: unit fdsGroup. m) \<and>
   validRangeOrder (rev :: unit fdsGroup \<Rightarrow> unit fdsGroup) \<and>
   Generate sample_externals (\<lambda>m. m)
     \<lparr>GetParameter = ''markdown,out.md'',
      ParseCodeGenRequest = [\<lparr>GetName = ''a/x.proto''\<rparr>, \<lparr>GetName = ''b/y.proto''\<rparr>]\<rparr> =
   Generate sample_externals rev
     \<lparr>GetParameter = ''markdown,out.md'',
      ParseCodeGenRequest = [\<lparr>GetName = ''a/x.proto''\<rparr>, \<lparr>GetName = ''b/y.proto''\<rparr>]\<rparr>"
proof -
  let ?r = "\<lparr>GetParameter = ''markdown,out.md'',
      ParseCodeGenRequest = [\<lparr>GetName = ''a/x.proto''\<rparr>, \<lparr>GetName = ''b/y.proto''\<rparr>]\<rparr>"
  have po: "ParseOptions sample_externals ?r =
     Inr \<lparr>Type = ''markdown'', TemplateFile = [], OutputFile = ''out.md'',
          ExcludePatterns = [], SourceRelative = False\<rparr>"
    by (simp add: ParseOptions_def parseExcludePart_def parseMainSpec_def strings_Contains_def
        strings_Split_def defaultOptions_def path_Base_def sample_externals_def)
  have "Generate sample_externals (\<lambda>m. m) ?r = Generate sample_externals rev ?r"
    using Generate_up_to_order [OF validRangeOrder_id validRangeOrder_rev, of sample_externals ?r]
    by (simp add: po)
  with validRangeOrder_id validRangeOrder_rev show ?thesis by simp
qed

text \<open>With two groups, the enumeration in one order and in the other give responses whose
  entries are in opposite order.\<close>

theorem Generate_order_differs:
  "validRangeOrder (\<lambda>m :: unit fdsGroup. m) \<and>
   validRangeOrder (rev :: unit fdsGroup \<Rightarrow> unit fdsGroup) \<and>
   Generate sample_externals (\<lambda>m. m)
     \<lparr>GetParameter = ''markdown,out.md,source_relative'',
      ParseCodeGenRequest = [\<lparr>GetName = ''a/x.proto''\<rparr>, \<lparr>GetName = ''b/y.proto''\<rparr>]\<rparr> =
     Inr \<lparr>File = [\<lparr>Name = ''a/out.md'', Content = ''a/x.proto''\<rparr>,
                 \<lparr>Name = ''b/out.md'', Content = ''b/y.proto''\<rparr>],
          resp_SupportedFeatures = Some 1\<rparr> \<and>
   Generate sample_externals rev
     \<lparr>GetParameter = ''markdown,out.md,source_relative'',
      ParseCodeGenRequest = [\<lparr>GetName = ''a/x.proto''\<rparr>, \<lparr>GetName = ''b/y.proto''\<rparr>]\<rparr> =
     Inr \<lparr>File = [\<lparr>Name = ''b/out.md'', Content = ''b/y.proto''\<rparr>,
                 \<lparr>Name = ''a/out.md'', Content = ''a/x.proto''\<rparr>],
          resp_SupportedFeatures = Some 1\<rparr> \<and>
   Generate sample_externals (\<lambda>m. m)
     \<lparr>GetParameter = ''markdown,out.md,source_relative'',
      ParseCodeGenRequest = [\<lparr>GetName = ''a/x.proto''\<rparr>, \<lparr>GetName = ''b/y.proto''\<rparr>]\<rparr> \<noteq>
   Generate sample_externals rev
     \<lparr>GetParameter = ''markdown,out.md,source_relative'',
      ParseCodeGenRequest = [\<lparr>GetName = ''a/x.proto''\<rparr>, \<lparr>GetName = ''b/y.proto''\<rparr>]\<rparr>"
proof -
  let ?r = "\<lparr>GetParameter = ''markdown,out.md,source_relative'',
      ParseCodeGenRequest = [\<lparr>GetName = ''a/x.proto''\<rparr>, \<lparr>GetName = ''b/y.proto''\<rparr>]\<rparr>"
  have po: "ParseOptions sample_externals ?r =
     Inr \<lparr>Type = ''markdown'', TemplateFile = [], OutputFile = ''out.md'',
          ExcludePatterns = [], SourceRelative = True\<rparr>"
    by (simp add: ParseOptions_def parseExcludePart_def parseMainSpec_def strings_Contains_def
        strings_Split_def defaultOptions_def path_Base_def sample_externals_def)
  have g: "groupProtosByDirectory [\<lparr>GetName = ''a/x.proto''\<rparr>, \<lparr>GetName = ''b/y.proto''\<rparr>] True =
      [(''a/'', [\<lparr>GetName = ''a/x.proto''\<rparr>]), (''b/'', [\<lparr>GetName = ''b/y.proto''\<rparr>])]"
    by (simp add: groupProtosByDirectory_def Let_def groupKey_def mapIndex_def filepath_Split_def)
  have ext: "\<And>names. RenderTemplate sample_externals ''markdown'' names [] = Inr (concat names)"
    "NewTemplate sample_externals = map GetName"
    "filepath_Join sample_externals ''a/'' ''out.md'' = ''a/out.md''"
    "filepath_Join sample_externals ''b/'' ''out.md'' = ''b/out.md''"
    "SupportedFeatures sample_externals = 1"
    by (simp_all add: sample_externals_def SupportedFeatures_def)
  have 1: "Generate sample_externals (\<lambda>m. m) ?r =
     Inr \<lparr>File = [\<lparr>Name = ''a/out.md'', Content = ''a/x.proto''\<rparr>,
                 \<lparr>Name = ''b/out.md'', Content = ''b/y.proto''\<rparr>],
          resp_SupportedFeatures = Some 1\<rparr>"
    by (simp add: Generate_def po Let_def excludeUnwantedProtos_def g ext)
  have 2: "Generate sample_externals rev ?r =
     Inr \<lparr>File = [\<lparr>Name = ''b/out.md'', Content = ''b/y.proto''\<rparr>,
                 \<lparr>Name = ''a/out.md'', Content = ''a/x.proto''\<rparr>],
          resp_SupportedFeatures = Some 1\<rparr>"
    by (simp add: Generate_def po Let_def excludeUnwantedProtos_def g ext)
  have "Generate sample_externals (\<lambda>m. m) ?r \<noteq> Generate sample_externals rev ?r"
    unfolding 1 2 by simp
  with 1 2 validRangeOrder_id validRangeOrder_rev show ?thesis by simp
qed

subsection \<open>Which colon separates\<close>

lemma splitFrom_hd: "hd (splitFrom cur s sep) = cur @ takeWhile (\<lambda>c. c \<noteq> sep) s"
  by (induction s arbitrary: cur) auto

lemma strings_Split_first:
  "sep \<notin> set a \<Longrightarrow> strings_Split (a @ sep # b) sep = a # strings_Split b sep"
  by (simp add: strings_Split_def splitFrom_first)

lemma strings_Split_nosep: "sep \<notin> set s \<Longrightarrow> strings_Split s sep = [s]"
  by (simp add: strings_Split_def splitFrom_nosep)

lemma strings_Split_hd: "strings_Split s sep ! 0 = takeWhile (\<lambda>c. c \<noteq> sep) s"
proof -
  have "strings_Split s sep \<noteq> []"
    using strings_Split_length [of s sep] by auto
  then have "strings_Split s sep ! 0 = hd (strings_Split s sep)"
    by (simp add: hd_conv_nth)
  then show ?thesis by (simp add: strings_Split_def splitFrom_hd)
qed

lemma takeWhile_first: "sep \<notin> set a \<Longrightarrow> takeWhile (\<lambda>c. c \<noteq> sep) (a @ sep # b) = a"
  by (induction a) auto

lemma takeWhile_nosep: "sep \<notin> set a \<Longrightarrow> takeWhile (\<lambda>c. c \<noteq> sep) a = a"
  by (induction a) auto

lemma first_sep:
  assumes "sep \<in> set s"
  obtains a b where "s = a @ sep # b" "sep \<notin> set a"
  using assms by (metis split_list_first)

lemma same_sep_position:
  assumes "sep \<notin> set x" and "x @ sep # r = a @ sep # b"
  shows "(a = x \<and> b = r) \<or> (\<exists>a'. a = x @ sep # a' \<and> r = a' @ sep # b)"
proof -
  from assms(2) obtain us where
    "(x = a @ us \<and> us @ sep # r = sep # b) \<or> (x @ us = a \<and> sep # r = us @ sep # b)"
    by (auto simp: append_eq_append_conv2)
  then show ?thesis
  proof
    assume h: "x = a @ us \<and> us @ sep # r = sep # b"
    show ?thesis
    proof (cases us)
      case Nil
      with h show ?thesis by simp
    next
      case (Cons u us')
      with h have "u = sep" by simp
      with Cons h assms(1) show ?thesis by simp
    qed
  next
    assume h: "x @ us = a \<and> sep # r = us @ sep # b"
    show ?thesis
    proof (cases us)
      case Nil
      with h show ?thesis by simp
    next
      case (Cons u us')
      with h show ?thesis by auto
    qed
  qed
qed

text \<open>The five ways through lines 141 to 157, on the parameter itself.\<close>

lemma splitExclude_cases:
  assumes "CHR '':'' \<in> set p"
  obtains
    (sep1) p0 r1 where "p = p0 @ CHR '':'' # r1" "CHR '':'' \<notin> set p0"
      "\<not> winPathHeuristic p0 (takeWhile (\<lambda>c. c \<noteq> CHR '':'') r1)"
      "splitExclude (strings_Split p (CHR '':'')) = (p0, takeWhile (\<lambda>c. c \<noteq> CHR '':'') r1)"
  | (all1) p0 r1 where "p = p0 @ CHR '':'' # r1" "CHR '':'' \<notin> set p0" "CHR '':'' \<notin> set r1"
      "winPathHeuristic p0 r1"
      "splitExclude (strings_Split p (CHR '':'')) = (p, [])"
  | (sep2) p0 p1 r2 where "p = p0 @ CHR '':'' # p1 @ CHR '':'' # r2"
      "CHR '':'' \<notin> set p0" "CHR '':'' \<notin> set p1" "winPathHeuristic p0 p1"
      "\<not> winPathHeuristic (p0 @ CHR '':'' # p1) (takeWhile (\<lambda>c. c \<noteq> CHR '':'') r2)"
      "splitExclude (strings_Split p (CHR '':'')) =
         (p0 @ CHR '':'' # p1, takeWhile (\<lambda>c. c \<noteq> CHR '':'') r2)"
  | (all2) p0 p1 r2 where "p = p0 @ CHR '':'' # p1 @ CHR '':'' # r2"
      "CHR '':'' \<notin> set p0" "CHR '':'' \<notin> set p1" "CHR '':'' \<notin> set r2" "winPathHeuristic p0 p1"
      "winPathHeuristic (p0 @ CHR '':'' # p1) r2"
      "splitExclude (strings_Split p (CHR '':'')) = (p, [])"
  | (sep3) p0 p1 p2 r3 where "p = p0 @ CHR '':'' # p1 @ CHR '':'' # p2 @ CHR '':'' # r3"
      "CHR '':'' \<notin> set p0" "CHR '':'' \<notin> set p1" "CHR '':'' \<notin> set p2" "winPathHeuristic p0 p1"
      "winPathHeuristic (p0 @ CHR '':'' # p1) p2"
      "splitExclude (strings_Split p (CHR '':'')) =
         (p0 @ CHR '':'' # p1 @ CHR '':'' # p2, takeWhile (\<lambda>c. c \<noteq> CHR '':'') r3)"
proof -
  let ?tw = "takeWhile (\<lambda>c. c \<noteq> CHR '':'')"
  from assms obtain p0 r1 where p: "p = p0 @ CHR '':'' # r1" and p0: "CHR '':'' \<notin> set p0"
    by (rule first_sep)
  have parts: "strings_Split p (CHR '':'') = p0 # strings_Split r1 (CHR '':'')"
    by (simp add: p strings_Split_first [OF p0])
  have n1: "strings_Split p (CHR '':'') ! 1 = ?tw r1"
    by (simp add: parts strings_Split_hd)
  show thesis
  proof (cases "winPathHeuristic p0 (?tw r1)")
    case False
    then have "splitExclude (strings_Split p (CHR '':'')) = (p0, ?tw r1)"
      using n1 by (simp add: splitExclude_def parts)
    with p p0 False show thesis by (rule sep1)
  next
    case h1: True
    show thesis
    proof (cases "CHR '':'' \<in> set r1")
      case False
      then have r1: "strings_Split r1 (CHR '':'') = [r1]" "?tw r1 = r1"
        by (simp_all add: strings_Split_nosep takeWhile_nosep)
      have "splitExclude (strings_Split p (CHR '':'')) = (p0 @ CHR '':'' # r1, [])"
        unfolding parts r1 using h1 r1 by (simp add: splitExclude_def)
      then have "splitExclude (strings_Split p (CHR '':'')) = (p, [])"
        by (simp add: p)
      with p p0 False h1 r1 show thesis by (simp add: all1)
    next
      case True
      then obtain p1 r2 where r1: "r1 = p1 @ CHR '':'' # r2" and p1: "CHR '':'' \<notin> set p1"
        by (rule first_sep)
      have tw1: "?tw r1 = p1" by (simp add: r1 takeWhile_first [OF p1])
      have parts2: "strings_Split p (CHR '':'') = p0 # p1 # strings_Split r2 (CHR '':'')"
        by (simp add: parts r1 strings_Split_first [OF p1])
      have n2: "strings_Split p (CHR '':'') ! 2 = ?tw r2"
        by (simp add: parts2 strings_Split_hd)
      have len2: "2 < length (strings_Split p (CHR '':''))"
        by (simp add: parts2 strings_Split_length)
      have p': "p = p0 @ CHR '':'' # p1 @ CHR '':'' # r2" by (simp add: p r1)
      from h1 tw1 have h1': "winPathHeuristic p0 p1" by simp
      show thesis
      proof (cases "winPathHeuristic (p0 @ CHR '':'' # p1) (?tw r2)")
        case False
        then have "splitExclude (strings_Split p (CHR '':'')) = (p0 @ CHR '':'' # p1, ?tw r2)"
          using h1' n2 len2 by (simp add: splitExclude_def parts2)
        with p' p0 p1 h1' False show thesis by (rule sep2)
      next
        case h2: True
        show thesis
        proof (cases "CHR '':'' \<in> set r2")
          case False
          then have r2: "strings_Split r2 (CHR '':'') = [r2]" "?tw r2 = r2"
            by (simp_all add: strings_Split_nosep takeWhile_nosep)
          have "splitExclude (strings_Split p (CHR '':'')) = (p0 @ CHR '':'' # p1 @ CHR '':'' # r2, [])"
            unfolding parts2 r2 using h1' h2 r2 by (simp add: splitExclude_def)
          then have "splitExclude (strings_Split p (CHR '':'')) = (p, [])"
            by (simp add: p')
          with p' p0 p1 False h1' h2 r2 show thesis by (simp add: all2)
        next
          case True
          then obtain p2 r3 where r2: "r2 = p2 @ CHR '':'' # r3" and p2: "CHR '':'' \<notin> set p2"
            by (rule first_sep)
          have tw2: "?tw r2 = p2" by (simp add: r2 takeWhile_first [OF p2])
          have parts3: "strings_Split p (CHR '':'') = p0 # p1 # p2 # strings_Split r3 (CHR '':'')"
            by (simp add: parts2 r2 strings_Split_first [OF p2])
          have n3: "strings_Split p (CHR '':'') ! 3 = ?tw r3"
            by (simp add: parts3 strings_Split_hd)
          from h2 tw2 have h2': "winPathHeuristic (p0 @ CHR '':'' # p1) p2" by simp
          have "splitExclude (strings_Split p (CHR '':'')) =
              (p0 @ CHR '':'' # p1 @ CHR '':'' # p2, ?tw r3)"
            using h1' h2' n3 by (simp add: splitExclude_def parts3 strings_Split_length)
          moreover have "p = p0 @ CHR '':'' # p1 @ CHR '':'' # p2 @ CHR '':'' # r3"
            by (simp add: p' r2)
          ultimately show thesis using p0 p1 p2 h1' h2' by (simp add: sep3)
        qed
      qed
    qed
  qed
qed

lemma count_list_nosep: "sep \<notin> set s \<Longrightarrow> count_list s sep = 0"
  by (simp add: count_list_0_iff)

lemma splitExclude_colons:
  assumes "CHR '':'' \<in> set p" and "splitExclude (strings_Split p (CHR '':'')) = (main, excl)"
  shows "count_list main (CHR '':'') \<le> 2"
  using assms(1)
proof (cases rule: splitExclude_cases)
  case (sep1 p0 r1)
  with assms(2) show ?thesis by (simp add: count_list_nosep)
next
  case (all1 p0 r1)
  with assms(2) show ?thesis by (auto simp: count_list_nosep)
next
  case (sep2 p0 p1 r2)
  with assms(2) show ?thesis by (auto simp: count_list_nosep)
next
  case (all2 p0 p1 r2)
  with assms(2) show ?thesis by (auto simp: count_list_nosep)
next
  case (sep3 p0 p1 p2 r3)
  with assms(2) show ?thesis by (auto simp: count_list_nosep)
qed

lemma rest_after_piece:
  "\<exists>tail. r = takeWhile (\<lambda>c. c \<noteq> sep) r @ tail \<and> (tail = [] \<or> hd tail = sep)"
proof -
  have "r = takeWhile (\<lambda>c. c \<noteq> sep) r @ dropWhile (\<lambda>c. c \<noteq> sep) r" by simp
  moreover have "dropWhile (\<lambda>c. c \<noteq> sep) r = [] \<or> hd (dropWhile (\<lambda>c. c \<noteq> sep) r) = sep"
    using hd_dropWhile [of "\<lambda>c. c \<noteq> sep" r] by auto
  ultimately show ?thesis by blast
qed

lemma piece_nosep: "sep \<notin> set (takeWhile (\<lambda>c. c \<noteq> sep) r)"
  by (auto dest: set_takeWhileD)

lemma prefix_form:
  assumes "p = m @ CHR '':'' # r" and "excl = takeWhile (\<lambda>c. c \<noteq> CHR '':'') r"
  shows "CHR '':'' \<notin> set excl \<and>
         (\<exists>tail. p = m @ '':'' @ excl @ tail \<and> (tail = [] \<or> hd tail = CHR '':''))"
proof -
  from rest_after_piece [of r "CHR '':''"] obtain tail where
    t: "r = excl @ tail" "tail = [] \<or> hd tail = CHR '':''" unfolding assms(2) by blast
  have "p = m @ '':'' @ excl @ tail"
    using assms(1) t(1) by simp
  with t(2) have "\<exists>tail. p = m @ '':'' @ excl @ tail \<and> (tail = [] \<or> hd tail = CHR '':'')"
    by (intro exI [of _ tail]) simp
  moreover have "CHR '':'' \<notin> set excl"
    unfolding assms(2) by (rule piece_nosep)
  ultimately show ?thesis by simp
qed

lemma splitExclude_prefix:
  assumes "CHR '':'' \<in> set p" and "splitExclude (strings_Split p (CHR '':'')) = (main, excl)"
  shows "CHR '':'' \<notin> set excl \<and>
         ((p = main \<and> excl = []) \<or>
          (\<exists>tail. p = main @ '':'' @ excl @ tail \<and> (tail = [] \<or> hd tail = CHR '':'')))"
  using assms(1)
proof (cases rule: splitExclude_cases)
  case (sep1 p0 r1)
  with assms(2) have m: "main = p0" "excl = takeWhile (\<lambda>c. c \<noteq> CHR '':'') r1" by simp_all
  from prefix_form [OF _ m(2), of p main] sep1(1) m(1) show ?thesis by simp
next
  case (all1 p0 r1)
  with assms(2) show ?thesis by auto
next
  case (sep2 p0 p1 r2)
  with assms(2) have m: "main = p0 @ CHR '':'' # p1" "excl = takeWhile (\<lambda>c. c \<noteq> CHR '':'') r2"
    by simp_all
  from prefix_form [OF _ m(2), of p main] sep2(1) m(1) show ?thesis by simp
next
  case (all2 p0 p1 r2)
  with assms(2) show ?thesis by auto
next
  case (sep3 p0 p1 p2 r3)
  with assms(2) have m: "main = p0 @ CHR '':'' # p1 @ CHR '':'' # p2"
    "excl = takeWhile (\<lambda>c. c \<noteq> CHR '':'') r3"
    by simp_all
  from prefix_form [OF _ m(2), of p main] sep3(1) m(1) show ?thesis by simp
qed

lemma splitExclude_inside:
  assumes "CHR '':'' \<in> set p" and "splitExclude (strings_Split p (CHR '':'')) = (main, excl)"
    and at: "p = a @ CHR '':'' # b" and inside: "length a < length main"
  shows "winPathHeuristic a (takeWhile (\<lambda>c. c \<noteq> CHR '':'') b)"
  using assms(1)
proof (cases rule: splitExclude_cases)
  case (sep1 p0 r1)
  with assms(2) have m: "main = p0" by simp
  from same_sep_position [OF sep1(2), of r1 a b] sep1(1) at inside m
  show ?thesis by auto
next
  case (all1 p0 r1)
  from same_sep_position [OF all1(2), of r1 a b] all1(1) at
  have "(a = p0 \<and> b = r1) \<or> (\<exists>a'. a = p0 @ CHR '':'' # a' \<and> r1 = a' @ CHR '':'' # b)" by simp
  with all1(3,4) show ?thesis by (auto simp: takeWhile_nosep)
next
  case (sep2 p0 p1 r2)
  with assms(2) have m: "main = p0 @ CHR '':'' # p1" by simp
  from same_sep_position [OF sep2(2), of "p1 @ CHR '':'' # r2" a b] sep2(1) at
  have "(a = p0 \<and> b = p1 @ CHR '':'' # r2) \<or>
      (\<exists>a'. a = p0 @ CHR '':'' # a' \<and> p1 @ CHR '':'' # r2 = a' @ CHR '':'' # b)" by simp
  then show ?thesis
  proof
    assume "a = p0 \<and> b = p1 @ CHR '':'' # r2"
    with sep2(3,4) show ?thesis by (simp add: takeWhile_first)
  next
    assume "\<exists>a'. a = p0 @ CHR '':'' # a' \<and> p1 @ CHR '':'' # r2 = a' @ CHR '':'' # b"
    then obtain a' where a': "a = p0 @ CHR '':'' # a'" "p1 @ CHR '':'' # r2 = a' @ CHR '':'' # b"
      by blast
    from same_sep_position [OF sep2(3) a'(2)] a'(1) inside m show ?thesis by auto
  qed
next
  case (all2 p0 p1 r2)
  from same_sep_position [OF all2(2), of "p1 @ CHR '':'' # r2" a b] all2(1) at
  have "(a = p0 \<and> b = p1 @ CHR '':'' # r2) \<or>
      (\<exists>a'. a = p0 @ CHR '':'' # a' \<and> p1 @ CHR '':'' # r2 = a' @ CHR '':'' # b)" by simp
  then show ?thesis
  proof
    assume "a = p0 \<and> b = p1 @ CHR '':'' # r2"
    with all2(3,5) show ?thesis by (simp add: takeWhile_first)
  next
    assume "\<exists>a'. a = p0 @ CHR '':'' # a' \<and> p1 @ CHR '':'' # r2 = a' @ CHR '':'' # b"
    then obtain a' where a': "a = p0 @ CHR '':'' # a'" "p1 @ CHR '':'' # r2 = a' @ CHR '':'' # b"
      by blast
    from same_sep_position [OF all2(3) a'(2)]
    have "(a' = p1 \<and> b = r2) \<or> (\<exists>a''. a' = p1 @ CHR '':'' # a'' \<and> r2 = a'' @ CHR '':'' # b)" .
    with a'(1) all2(4,6) show ?thesis by (auto simp: takeWhile_nosep)
  qed
next
  case (sep3 p0 p1 p2 r3)
  with assms(2) have m: "main = p0 @ CHR '':'' # p1 @ CHR '':'' # p2" by simp
  from same_sep_position [OF sep3(2), of "p1 @ CHR '':'' # p2 @ CHR '':'' # r3" a b] sep3(1) at
  have "(a = p0 \<and> b = p1 @ CHR '':'' # p2 @ CHR '':'' # r3) \<or>
      (\<exists>a'. a = p0 @ CHR '':'' # a' \<and> p1 @ CHR '':'' # p2 @ CHR '':'' # r3 = a' @ CHR '':'' # b)"
    by simp
  then show ?thesis
  proof
    assume "a = p0 \<and> b = p1 @ CHR '':'' # p2 @ CHR '':'' # r3"
    with sep3(3,5) show ?thesis by (simp add: takeWhile_first)
  next
    assume "\<exists>a'. a = p0 @ CHR '':'' # a' \<and>
        p1 @ CHR '':'' # p2 @ CHR '':'' # r3 = a' @ CHR '':'' # b"
    then obtain a' where a': "a = p0 @ CHR '':'' # a'"
      "p1 @ CHR '':'' # p2 @ CHR '':'' # r3 = a' @ CHR '':'' # b"
      by blast
    from same_sep_position [OF sep3(3) a'(2)]
    have "(a' = p1 \<and> b = p2 @ CHR '':'' # r3) \<or>
        (\<exists>a''. a' = p1 @ CHR '':'' # a'' \<and> p2 @ CHR '':'' # r3 = a'' @ CHR '':'' # b)" .
    then show ?thesis
    proof
      assume "a' = p1 \<and> b = p2 @ CHR '':'' # r3"
      with a'(1) sep3(4,6) show ?thesis by (simp add: takeWhile_first)
    next
      assume "\<exists>a''. a' = p1 @ CHR '':'' # a'' \<and> p2 @ CHR '':'' # r3 = a'' @ CHR '':'' # b"
      then obtain a'' where a'': "a' = p1 @ CHR '':'' # a''"
        "p2 @ CHR '':'' # r3 = a'' @ CHR '':'' # b" by blast
      from same_sep_position [OF sep3(4) a''(2)] a''(1) a'(1) inside m show ?thesis by auto
    qed
  qed
qed

lemma splitExclude_separator:
  assumes "CHR '':'' \<in> set p" and "splitExclude (strings_Split p (CHR '':'')) = (main, excl)"
    and at: "p = main @ CHR '':'' # b" and few: "count_list main (CHR '':'') < 2"
  shows "\<not> winPathHeuristic main (takeWhile (\<lambda>c. c \<noteq> CHR '':'') b)"
  using assms(1)
proof (cases rule: splitExclude_cases)
  case (sep1 p0 r1)
  with assms(2) have m: "main = p0" by simp
  with sep1(1) at have "b = r1" by simp
  with sep1(3) m show ?thesis by simp
next
  case (all1 p0 r1)
  with assms(2) have "main = p" by simp
  with at show ?thesis by simp
next
  case (sep2 p0 p1 r2)
  with assms(2) have m: "main = p0 @ CHR '':'' # p1" by simp
  with sep2(1) at have "b = r2" by simp
  with sep2(5) m show ?thesis by simp
next
  case (all2 p0 p1 r2)
  with assms(2) have "main = p" by simp
  with at show ?thesis by simp
next
  case (sep3 p0 p1 p2 r3)
  with assms(2) have m: "main = p0 @ CHR '':'' # p1 @ CHR '':'' # p2" by simp
  with few sep3(2,3,4) show ?thesis by (simp add: count_list_nosep)
qed

lemma isLetter_class: "isLetter c \<Longrightarrow> class_a_z_A_z c"
  by (auto simp: isLetter_def class_a_z_A_z_def)

lemma winPathHeuristic_shape:
  assumes "winPathHeuristic first second"
  shows "(\<exists>rest. second = backslash # rest) \<and>
         (\<exists>c. first = [c] \<or> (\<exists>pre. first = pre @ [CHR '','', c]))"
proof -
  from assms have pre: "strings_HasPrefix second [backslash]" and m: "matchDriveLetter first"
    by (auto simp: winPathHeuristic_def split: if_splits)
  from pre have "\<exists>rest. second = backslash # rest"
    by (cases second) (auto simp: strings_HasPrefix_def)
  moreover have "\<exists>c. first = [c] \<or> (\<exists>pre. first = pre @ [CHR '','', c])"
  proof (cases "rev first")
    case Nil
    with m show ?thesis by (simp add: matchDriveLetter_def)
  next
    case (Cons c rest)
    show ?thesis
    proof (cases rest)
      case Nil
      with Cons have "first = [c]" by (metis rev_singleton_conv)
      then show ?thesis by blast
    next
      case (Cons q rest')
      with \<open>rev first = c # rest\<close> m have "q = CHR '',''" by (simp add: matchDriveLetter_def)
      moreover from Cons \<open>rev first = c # rest\<close> have "first = rev rest' @ [q, c]"
        by (metis append_Cons append_Nil append_assoc rev.simps(2) rev_rev_ident)
      ultimately show ?thesis by blast
    qed
  qed
  ultimately show ?thesis by simp
qed

lemma winPathHeuristic_letter:
  assumes "isLetter c"
  shows "winPathHeuristic [c] (backslash # rest) \<and>
         winPathHeuristic (pre @ [CHR '','', c]) (backslash # rest)"
  using isLetter_class [OF assms]
  by (simp add: winPathHeuristic_def strings_HasPrefix_def matchDriveLetter_def)

lemma winPathHeuristic_outside:
  assumes "first \<noteq> []"
    and "(of_char (last first) :: nat) < of_char (CHR ''A'') \<or>
         (of_char (CHR ''z'') :: nat) < of_char (last first)"
  shows "\<not> winPathHeuristic first second"
proof -
  from assms(1) obtain c rest where r: "rev first = c # rest" "last first = c"
    by (cases "rev first") (auto simp: last_rev [symmetric] simp del: last_rev)
  with assms(2) have "\<not> class_a_z_A_z c" by (auto simp: class_a_z_A_z_def)
  with r show ?thesis
    by (cases rest) (simp_all add: winPathHeuristic_def matchDriveLetter_def)
qed

lemma compilePatterns_fail:
  assumes "i < length pats" and "regexp_Compile ext (pats ! i) = Inl e"
    and "\<forall>j<i. \<exists>rx. regexp_Compile ext (pats ! j) = Inr rx"
  shows "compilePatterns ext pats options = Inl (External e)"
  using assms
proof (induction pats arbitrary: i options)
  case Nil
  then show ?case by simp
next
  case (Cons p ps)
  show ?case
  proof (cases i)
    case 0
    with Cons.prems show ?thesis by simp
  next
    case (Suc k)
    with Cons.prems(3) obtain rx where rx: "regexp_Compile ext p = Inr rx" by force
    from Suc Cons.prems have "k < length ps" "regexp_Compile ext (ps ! k) = Inl e"
      "\<forall>j<k. \<exists>rx. regexp_Compile ext (ps ! j) = Inr rx" by auto
    from Cons.IH [OF this] rx show ?thesis by simp
  qed
qed

lemma compilePatterns_ok:
  assumes "map (regexp_Compile ext) pats = map Inr rxs"
  shows "compilePatterns ext pats options =
           Inr (options\<lparr>ExcludePatterns := ExcludePatterns options @ rxs\<rparr>)"
  using assms compilePatterns_Inr [of ext pats options] by blast

text \<open>C2, as amended. For a parameter \<open>p\<close> with a colon, let \<open>main\<close> be the main spec of
  lines 141 to 157. At most two colons are taken as part of a path: \<open>main\<close> has at most two
  colons, and it is \<open>p\<close> itself or the text of \<open>p\<close> before one of its colons. Every colon
  inside \<open>main\<close> passed \<open>winPathHeuristic\<close> on the text before it and the text from it to the
  next colon; the colon that ends \<open>main\<close> failed it, unless \<open>main\<close> holds two colons
  already: the colon after two path colons separates without being examined.
  \<open>winPathHeuristic\<close> asks for a backslash right after the colon and, before it, for a
  text that is one character or ends in a comma and one character; with that shape it
  holds whenever the character is a letter, and it never holds when the character lies
  outside the codes \<^verbatim>\<open>A\<close> to \<^verbatim>\<open>z\<close>. The parameter \<^verbatim>\<open>C:\tmpl.tmpl,out.html:ignore\.proto$\<close>
  gives the template \<^verbatim>\<open>C:\tmpl.tmpl\<close>, the output name \<^verbatim>\<open>out.html\<close> and the one pattern
  \<^verbatim>\<open>ignore\.proto$\<close>, when the pattern compiles and the template path is no render type.\<close>

theorem ParseOptions_colon_rule:
  assumes colon: "strings_Contains p (CHR '':'')"
    and split: "splitExclude (strings_Split p (CHR '':'')) = (main, excl)"
  shows "count_list main (CHR '':'') \<le> 2 \<and>
         (p = main \<or> (\<exists>b. p = main @ CHR '':'' # b)) \<and>
         (\<forall>a b. p = a @ CHR '':'' # b \<and> length a < length main \<longrightarrow>
            winPathHeuristic a (takeWhile (\<lambda>c. c \<noteq> CHR '':'') b)) \<and>
         (\<forall>b. p = main @ CHR '':'' # b \<and> count_list main (CHR '':'') < 2 \<longrightarrow>
            \<not> winPathHeuristic main (takeWhile (\<lambda>c. c \<noteq> CHR '':'') b)) \<and>
         (\<forall>first second. winPathHeuristic first second \<longrightarrow>
            (\<exists>rest. second = backslash # rest) \<and>
            (\<exists>c. first = [c] \<or> (\<exists>pre. first = pre @ [CHR '','', c]))) \<and>
         (\<forall>c pre rest. isLetter c \<longrightarrow>
            winPathHeuristic [c] (backslash # rest) \<and>
            winPathHeuristic (pre @ [CHR '','', c]) (backslash # rest)) \<and>
         (\<forall>first second. first \<noteq> [] \<and>
            ((of_char (last first) :: nat) < of_char (CHR ''A'') \<or>
             (of_char (CHR ''z'') :: nat) < of_char (last first)) \<longrightarrow>
            \<not> winPathHeuristic first second) \<and>
         (\<forall>rx e. regexp_Compile ext (''ignore'' @ [backslash] @ ''.proto$'') = Inr rx \<and>
            NewRenderType ext (''C:'' @ [backslash] @ ''tmpl.tmpl'') = Inl e \<longrightarrow>
            ParseOptions ext
              (req\<lparr>GetParameter := ''C:'' @ [backslash] @ ''tmpl.tmpl,out.html:ignore'' @
                                      [backslash] @ ''.proto$''\<rparr>) =
              Inr \<lparr>Type = RenderTypeHTML ext, TemplateFile = ''C:'' @ [backslash] @ ''tmpl.tmpl'',
                   OutputFile = ''out.html'', ExcludePatterns = [rx], SourceRelative = False\<rparr>)"
proof -
  from colon have mem: "CHR '':'' \<in> set p" by (simp add: strings_Contains_def)
  have 1: "count_list main (CHR '':'') \<le> 2"
    by (rule splitExclude_colons [OF mem split])
  have 2: "p = main \<or> (\<exists>b. p = main @ CHR '':'' # b)"
    using splitExclude_prefix [OF mem split] by auto
  have 3: "\<forall>a b. p = a @ CHR '':'' # b \<and> length a < length main \<longrightarrow>
            winPathHeuristic a (takeWhile (\<lambda>c. c \<noteq> CHR '':'') b)"
    using splitExclude_inside [OF mem split] by blast
  have 4: "\<forall>b. p = main @ CHR '':'' # b \<and> count_list main (CHR '':'') < 2 \<longrightarrow>
            \<not> winPathHeuristic main (takeWhile (\<lambda>c. c \<noteq> CHR '':'') b)"
    using splitExclude_separator [OF mem split] by blast
  have 5: "\<forall>first second. winPathHeuristic first second \<longrightarrow>
            (\<exists>rest. second = backslash # rest) \<and>
            (\<exists>c. first = [c] \<or> (\<exists>pre. first = pre @ [CHR '','', c]))"
    using winPathHeuristic_shape by blast
  have 6: "\<forall>c pre rest. isLetter c \<longrightarrow>
            winPathHeuristic [c] (backslash # rest) \<and>
            winPathHeuristic (pre @ [CHR '','', c]) (backslash # rest)"
    using winPathHeuristic_letter by blast
  have 7: "\<forall>first second. first \<noteq> [] \<and>
            ((of_char (last first) :: nat) < of_char (CHR ''A'') \<or>
             (of_char (CHR ''z'') :: nat) < of_char (last first)) \<longrightarrow>
            \<not> winPathHeuristic first second"
    using winPathHeuristic_outside by blast
  have 8: "\<forall>rx e. regexp_Compile ext (''ignore'' @ [backslash] @ ''.proto$'') = Inr rx \<and>
            NewRenderType ext (''C:'' @ [backslash] @ ''tmpl.tmpl'') = Inl e \<longrightarrow>
            ParseOptions ext
              (req\<lparr>GetParameter := ''C:'' @ [backslash] @ ''tmpl.tmpl,out.html:ignore'' @
                                      [backslash] @ ''.proto$''\<rparr>) =
              Inr \<lparr>Type = RenderTypeHTML ext, TemplateFile = ''C:'' @ [backslash] @ ''tmpl.tmpl'',
                   OutputFile = ''out.html'', ExcludePatterns = [rx], SourceRelative = False\<rparr>"
  proof (intro allI impI)
    fix rx e
    assume h: "regexp_Compile ext (''ignore'' @ [backslash] @ ''.proto$'') = Inr rx \<and>
            NewRenderType ext (''C:'' @ [backslash] @ ''tmpl.tmpl'') = Inl e"
    have s: "splitExclude (strings_Split (''C:'' @ [backslash] @ ''tmpl.tmpl,out.html:ignore'' @
                                      [backslash] @ ''.proto$'') (CHR '':'')) =
        (''C:'' @ [backslash] @ ''tmpl.tmpl,out.html'', ''ignore'' @ [backslash] @ ''.proto$'')"
      by (simp add: strings_Split_def splitExclude_def winPathHeuristic_def strings_HasPrefix_def
          matchDriveLetter_def class_a_z_A_z_def)
    have pe: "parseExcludePart ext (''C:'' @ [backslash] @ ''tmpl.tmpl,out.html:ignore'' @
                                      [backslash] @ ''.proto$'') (defaultOptions ext) =
        Inr (''C:'' @ [backslash] @ ''tmpl.tmpl,out.html'',
             (defaultOptions ext)\<lparr>ExcludePatterns := [rx]\<rparr>)"
      unfolding parseExcludePart_def s using h
      by (simp add: strings_Contains_def strings_Split_def defaultOptions_def)
    have pm: "parseMainSpec ext (''C:'' @ [backslash] @ ''tmpl.tmpl,out.html'')
        ((defaultOptions ext)\<lparr>ExcludePatterns := [rx]\<rparr>) =
        Inr \<lparr>Type = RenderTypeHTML ext, TemplateFile = ''C:'' @ [backslash] @ ''tmpl.tmpl'',
             OutputFile = ''out.html'', ExcludePatterns = [rx], SourceRelative = False\<rparr>"
      using h
      by (simp add: parseMainSpec_def strings_Contains_def strings_Split_def defaultOptions_def
          path_Base_def)
    show "ParseOptions ext
              (req\<lparr>GetParameter := ''C:'' @ [backslash] @ ''tmpl.tmpl,out.html:ignore'' @
                                      [backslash] @ ''.proto$''\<rparr>) =
              Inr \<lparr>Type = RenderTypeHTML ext, TemplateFile = ''C:'' @ [backslash] @ ''tmpl.tmpl'',
                   OutputFile = ''out.html'', ExcludePatterns = [rx], SourceRelative = False\<rparr>"
      using pe pm by (simp add: ParseOptions_def)
  qed
  from 1 2 3 4 5 6 7 8 show ?thesis by (intro conjI)
qed

theorem ParseOptions_colon_rule_witness:
  "strings_Contains (''C:'' @ [backslash] @ ''a,b:x'') (CHR '':'') \<and>
   splitExclude (strings_Split (''C:'' @ [backslash] @ ''a,b:x'') (CHR '':'')) =
     (''C:'' @ [backslash] @ ''a,b'', ''x'') \<and>
   winPathHeuristic ''C'' (takeWhile (\<lambda>c. c \<noteq> CHR '':'') ([backslash] @ ''a,b:x'')) \<and>
   \<not> winPathHeuristic (''C:'' @ [backslash] @ ''a,b'') (takeWhile (\<lambda>c. c \<noteq> CHR '':'') ''x'')"
proof -
  let ?p = "''C:'' @ [backslash] @ ''a,b:x''"
  have c: "strings_Contains ?p (CHR '':'')"
    by (simp add: strings_Contains_def)
  have s: "splitExclude (strings_Split ?p (CHR '':'')) = (''C:'' @ [backslash] @ ''a,b'', ''x'')"
    by (simp add: strings_Split_def splitExclude_def winPathHeuristic_def strings_HasPrefix_def
        matchDriveLetter_def class_a_z_A_z_def)
  note t = ParseOptions_colon_rule [OF c s, of sample_externals "\<lparr>GetParameter = [], ParseCodeGenRequest = []\<rparr>"]
  have i: "\<forall>a b. ?p = a @ CHR '':'' # b \<and> length a < length (''C:'' @ [backslash] @ ''a,b'') \<longrightarrow>
            winPathHeuristic a (takeWhile (\<lambda>c. c \<noteq> CHR '':'') b)"
    using t by blast
  have "?p = ''C'' @ CHR '':'' # ([backslash] @ ''a,b:x'') \<and>
      length ''C'' < length (''C:'' @ [backslash] @ ''a,b'')" by simp
  with i have 1: "winPathHeuristic ''C'' (takeWhile (\<lambda>c. c \<noteq> CHR '':'') ([backslash] @ ''a,b:x''))"
    by blast
  have j: "\<forall>b. ?p = (''C:'' @ [backslash] @ ''a,b'') @ CHR '':'' # b \<and>
        count_list (''C:'' @ [backslash] @ ''a,b'') (CHR '':'') < 2 \<longrightarrow>
        \<not> winPathHeuristic (''C:'' @ [backslash] @ ''a,b'') (takeWhile (\<lambda>c. c \<noteq> CHR '':'') b)"
    using t by blast
  have "?p = (''C:'' @ [backslash] @ ''a,b'') @ CHR '':'' # ''x'' \<and>
        count_list (''C:'' @ [backslash] @ ''a,b'') (CHR '':'') < 2" by simp
  with j have 2: "\<not> winPathHeuristic (''C:'' @ [backslash] @ ''a,b'')
      (takeWhile (\<lambda>c. c \<noteq> CHR '':'') ''x'')"
    by blast
  from c s 1 2 show ?thesis by (intro conjI)
qed

text \<open>In \<^verbatim>\<open>C:\a,D:\b,E:\d\<close> the third colon has a backslash after it and a comma and a
  letter before it, so \<open>winPathHeuristic\<close> holds at it; it is the separator all the same,
  the main spec ends before it and the pattern is \<^verbatim>\<open>\d\<close>.\<close>

theorem ParseOptions_third_colon_separates:
  "splitExclude
     (strings_Split (''C:'' @ [backslash] @ ''a,D:'' @ [backslash] @ ''b,E:'' @ [backslash] @ ''d'')
        (CHR '':'')) =
     (''C:'' @ [backslash] @ ''a,D:'' @ [backslash] @ ''b,E'', [backslash] @ ''d'') \<and>
   winPathHeuristic (''C:'' @ [backslash] @ ''a,D:'' @ [backslash] @ ''b,E'') ([backslash] @ ''d'') \<and>
   ParseOptions sample_externals
     \<lparr>GetParameter = ''C:'' @ [backslash] @ ''a,D:'' @ [backslash] @ ''b,E:'' @ [backslash] @ ''d'',
      ParseCodeGenRequest = []\<rparr> =
     Inl (Errorf (''Invalid parameter: C:'' @ [backslash] @ ''a,D:'' @ [backslash] @ ''b,E''))"
proof -
  have s: "splitExclude
     (strings_Split (''C:'' @ [backslash] @ ''a,D:'' @ [backslash] @ ''b,E:'' @ [backslash] @ ''d'')
        (CHR '':'')) =
     (''C:'' @ [backslash] @ ''a,D:'' @ [backslash] @ ''b,E'', [backslash] @ ''d'')"
    by (simp add: strings_Split_def splitExclude_def winPathHeuristic_def strings_HasPrefix_def
        matchDriveLetter_def class_a_z_A_z_def)
  have h: "winPathHeuristic (''C:'' @ [backslash] @ ''a,D:'' @ [backslash] @ ''b,E'')
      ([backslash] @ ''d'')"
    by (simp add: winPathHeuristic_def strings_HasPrefix_def matchDriveLetter_def class_a_z_A_z_def)
  have c: "regexp_Compile sample_externals ([backslash] @ ''d'') = Inr ([backslash] @ ''d'')"
    "\<And>s. NewRenderType sample_externals (''C:'' @ s) = Inl ''Invalid render type''"
    by (simp_all add: sample_externals_def)
  have pe: "parseExcludePart sample_externals
      (''C:'' @ [backslash] @ ''a,D:'' @ [backslash] @ ''b,E:'' @ [backslash] @ ''d'')
      (defaultOptions sample_externals) =
      Inr (''C:'' @ [backslash] @ ''a,D:'' @ [backslash] @ ''b,E'',
           (defaultOptions sample_externals)\<lparr>ExcludePatterns := [[backslash] @ ''d'']\<rparr>)"
    unfolding parseExcludePart_def s using c(1)
    by (simp add: strings_Contains_def strings_Split_def defaultOptions_def)
  have "ParseOptions sample_externals
     \<lparr>GetParameter = ''C:'' @ [backslash] @ ''a,D:'' @ [backslash] @ ''b,E:'' @ [backslash] @ ''d'',
      ParseCodeGenRequest = []\<rparr> =
     Inl (Errorf (''Invalid parameter: C:'' @ [backslash] @ ''a,D:'' @ [backslash] @ ''b,E''))"
    using pe by (simp add: ParseOptions_def parseMainSpec_def strings_Contains_def strings_Split_def)
  with s h show ?thesis by (intro conjI)
qed

text \<open>C3, as amended. For a parameter \<open>p\<close> with a colon, the exclusion part \<open>excl\<close> is the
  text between the separating colon and the next colon, or the end of \<open>p\<close> when no colon
  follows: it has no colon itself, and what comes after a further colon is not read. When
  it is not empty, its comma-separated pieces are compiled in order. If a piece does not
  compile and all pieces before it do, \<open>ParseOptions\<close> returns the compiler's error for
  that piece, as it is, whatever the main spec is: no other error comes first. If all
  pieces compile, the result is that of the main spec with the compiled patterns, in
  order, as exclusion patterns.\<close>

theorem ParseOptions_exclusion_part:
  assumes param: "GetParameter req = p"
    and colon: "strings_Contains p (CHR '':'')"
    and split: "splitExclude (strings_Split p (CHR '':'')) = (main, excl)"
    and pats: "pats = (if excl = [] then [] else strings_Split excl (CHR '',''))"
  shows "CHR '':'' \<notin> set excl \<and>
         ((p = main \<and> excl = []) \<or>
          (\<exists>tail. p = main @ '':'' @ excl @ tail \<and> (tail = [] \<or> hd tail = CHR '':''))) \<and>
         (\<forall>i e. i < length pats \<and> regexp_Compile ext (pats ! i) = Inl e \<and>
            (\<forall>j<i. \<exists>rx. regexp_Compile ext (pats ! j) = Inr rx) \<longrightarrow>
            ParseOptions ext req = Inl (External e)) \<and>
         (\<forall>rxs. map (regexp_Compile ext) pats = map Inr rxs \<longrightarrow>
            ParseOptions ext req =
              parseMainSpec ext main ((defaultOptions ext)\<lparr>ExcludePatterns := rxs\<rparr>))"
proof -
  from colon have mem: "CHR '':'' \<in> set p" by (simp add: strings_Contains_def)
  note pre = splitExclude_prefix [OF mem split]
  have pe: "parseExcludePart ext p (defaultOptions ext) =
      (if excl = [] then Inr (main, defaultOptions ext)
       else case compilePatterns ext pats (defaultOptions ext) of
              Inl err \<Rightarrow> Inl err
            | Inr options' \<Rightarrow> Inr (main, options'))"
    using colon split pats by (simp add: parseExcludePart_def)
  have fail: "\<forall>i e. i < length pats \<and> regexp_Compile ext (pats ! i) = Inl e \<and>
            (\<forall>j<i. \<exists>rx. regexp_Compile ext (pats ! j) = Inr rx) \<longrightarrow>
            ParseOptions ext req = Inl (External e)"
  proof (intro allI impI)
    fix i e
    assume h: "i < length pats \<and> regexp_Compile ext (pats ! i) = Inl e \<and>
            (\<forall>j<i. \<exists>rx. regexp_Compile ext (pats ! j) = Inr rx)"
    then have ne: "excl \<noteq> []" using pats by auto
    from h have "compilePatterns ext pats (defaultOptions ext) = Inl (External e)"
      by (intro compilePatterns_fail [of i]) auto
    with ne show "ParseOptions ext req = Inl (External e)"
      by (simp add: ParseOptions_def param pe)
  qed
  have ok: "\<forall>rxs. map (regexp_Compile ext) pats = map Inr rxs \<longrightarrow>
            ParseOptions ext req =
              parseMainSpec ext main ((defaultOptions ext)\<lparr>ExcludePatterns := rxs\<rparr>)"
  proof (intro allI impI)
    fix rxs
    assume h: "map (regexp_Compile ext) pats = map Inr rxs"
    show "ParseOptions ext req =
        parseMainSpec ext main ((defaultOptions ext)\<lparr>ExcludePatterns := rxs\<rparr>)"
    proof (cases "excl = []")
      case True
      with pats h have "rxs = []" by simp
      moreover have "(defaultOptions ext)\<lparr>ExcludePatterns := []\<rparr> = defaultOptions ext"
        by (simp add: defaultOptions_def)
      ultimately show ?thesis using True
        by (simp add: ParseOptions_def param pe)
    next
      case False
      from compilePatterns_ok [OF h, of "defaultOptions ext"]
      have "compilePatterns ext pats (defaultOptions ext) =
          Inr ((defaultOptions ext)\<lparr>ExcludePatterns := rxs\<rparr>)"
        by (simp add: defaultOptions_def)
      with False show ?thesis
        by (simp add: ParseOptions_def param pe)
    qed
  qed
  from pre fail ok show ?thesis by (intro conjI) simp_all
qed

theorem ParseOptions_exclusion_part_witness:
  "strings_Contains ''x:vendor/,(,google/'' (CHR '':'') \<and>
   splitExclude (strings_Split ''x:vendor/,(,google/'' (CHR '':'')) = (''x'', ''vendor/,(,google/'') \<and>
   regexp_Compile sample_externals ''vendor/'' = Inr ''vendor/'' \<and>
   regexp_Compile sample_externals ''('' = Inl ''missing closing )'' \<and>
   ParseOptions sample_externals
     \<lparr>GetParameter = ''x:vendor/,(,google/'', ParseCodeGenRequest = []\<rparr> =
     Inl (External ''missing closing )'')"
proof -
  let ?req = "\<lparr>GetParameter = ''x:vendor/,(,google/'', ParseCodeGenRequest = ([] :: FileDescriptor list)\<rparr>"
  have p: "GetParameter ?req = ''x:vendor/,(,google/''" by simp
  have c: "strings_Contains ''x:vendor/,(,google/'' (CHR '':'')"
    by (simp add: strings_Contains_def)
  have s: "splitExclude (strings_Split ''x:vendor/,(,google/'' (CHR '':'')) =
      (''x'', ''vendor/,(,google/'')"
    by (simp add: strings_Split_def splitExclude_def winPathHeuristic_def strings_HasPrefix_def)
  have pats: "[''vendor/'', ''('', ''google/''] =
      (if ''vendor/,(,google/'' = [] then [] else strings_Split ''vendor/,(,google/'' (CHR '',''))"
    by (simp add: strings_Split_def)
  have k: "regexp_Compile sample_externals ''vendor/'' = Inr ''vendor/''"
    "regexp_Compile sample_externals ''('' = Inl ''missing closing )''"
    by (simp_all add: sample_externals_def)
  have "\<forall>i e. i < length [''vendor/'', ''('', ''google/''] \<and>
        regexp_Compile sample_externals ([''vendor/'', ''('', ''google/''] ! i) = Inl e \<and>
        (\<forall>j<i. \<exists>rx. regexp_Compile sample_externals ([''vendor/'', ''('', ''google/''] ! j) = Inr rx) \<longrightarrow>
        ParseOptions sample_externals ?req = Inl (External e)"
    using ParseOptions_exclusion_part [OF p c s pats, of sample_externals] by blast
  from this [rule_format, of 1 "''missing closing )''"] k
  have "ParseOptions sample_externals ?req = Inl (External ''missing closing )'')"
    by simp
  with c s k show ?thesis by (intro conjI)
qed

text \<open>In \<^verbatim>\<open>a,b:x:y\<close> the text after the separating colon is \<^verbatim>\<open>x:y\<close>; the exclusion part is
  \<^verbatim>\<open>x\<close>, and the result is that of \<^verbatim>\<open>a,b:x\<close>.\<close>

theorem ParseOptions_text_after_second_colon_dropped:
  "splitExclude (strings_Split ''a,b:x:y'' (CHR '':'')) = (''a,b'', ''x'') \<and>
   ParseOptions sample_externals \<lparr>GetParameter = ''a,b:x:y'', ParseCodeGenRequest = []\<rparr> =
     Inr \<lparr>Type = ''html'', TemplateFile = ''a'', OutputFile = ''b'', ExcludePatterns = [''x''],
          SourceRelative = False\<rparr> \<and>
   ParseOptions sample_externals \<lparr>GetParameter = ''a,b:x:y'', ParseCodeGenRequest = []\<rparr> =
   ParseOptions sample_externals \<lparr>GetParameter = ''a,b:x'', ParseCodeGenRequest = []\<rparr>"
proof -
  have s: "splitExclude (strings_Split ''a,b:x:y'' (CHR '':'')) = (''a,b'', ''x'')"
    "splitExclude (strings_Split ''a,b:x'' (CHR '':'')) = (''a,b'', ''x'')"
    by (simp_all add: strings_Split_def splitExclude_def winPathHeuristic_def strings_HasPrefix_def)
  have k: "regexp_Compile sample_externals ''x'' = Inr ''x''"
    "NewRenderType sample_externals ''a'' = Inl ''Invalid render type''"
    "RenderTypeHTML sample_externals = ''html''"
    by (simp_all add: sample_externals_def)
  have pe: "parseExcludePart sample_externals ''a,b:x:y'' (defaultOptions sample_externals) =
      Inr (''a,b'', (defaultOptions sample_externals)\<lparr>ExcludePatterns := [''x'']\<rparr>)"
    "parseExcludePart sample_externals ''a,b:x'' (defaultOptions sample_externals) =
      Inr (''a,b'', (defaultOptions sample_externals)\<lparr>ExcludePatterns := [''x'']\<rparr>)"
    unfolding parseExcludePart_def s using k(1)
    by (simp_all add: strings_Contains_def strings_Split_def defaultOptions_def)
  have pm: "parseMainSpec sample_externals ''a,b''
      ((defaultOptions sample_externals)\<lparr>ExcludePatterns := [''x'']\<rparr>) =
     Inr \<lparr>Type = ''html'', TemplateFile = ''a'', OutputFile = ''b'', ExcludePatterns = [''x''],
          SourceRelative = False\<rparr>"
    using k
    by (simp add: parseMainSpec_def strings_Contains_def strings_Split_def defaultOptions_def
        path_Base_def)
  have 1: "ParseOptions sample_externals \<lparr>GetParameter = ''a,b:x:y'', ParseCodeGenRequest = []\<rparr> =
     Inr \<lparr>Type = ''html'', TemplateFile = ''a'', OutputFile = ''b'', ExcludePatterns = [''x''],
          SourceRelative = False\<rparr>"
    using pe(1) pm by (simp add: ParseOptions_def)
  have 2: "ParseOptions sample_externals \<lparr>GetParameter = ''a,b:x'', ParseCodeGenRequest = []\<rparr> =
     Inr \<lparr>Type = ''html'', TemplateFile = ''a'', OutputFile = ''b'', ExcludePatterns = [''x''],
          SourceRelative = False\<rparr>"
    using pe(2) pm by (simp add: ParseOptions_def)
  from s(1) 1 2 show ?thesis by simp
qed

end
